theory Spec2Isabelle
  imports Main "HOL-Library.Word"
begin

section \<open>Strings\<close>

text \<open>
  A Python \<open>str\<close> is modelled as a \<open>string\<close>: each \<open>char\<close> stands for one code point
  below 256. \<open>is_space\<close> lists the code points below 256 that \<open>str.isspace\<close>,
  \<open>str.split()\<close> and \<open>str.strip()\<close> treat as whitespace.
\<close>

definition is_space :: "char \<Rightarrow> bool" where
  "is_space c = (c \<in> set [CHR 0x09, CHR 0x0A, CHR 0x0B, CHR 0x0C, CHR 0x0D,
                           CHR 0x1C, CHR 0x1D, CHR 0x1E, CHR 0x1F, CHR 0x20,
                           CHR 0x85, CHR 0xA0])"

text \<open>
  \<open>s.split()\<close>: the maximal runs of non-whitespace characters, in order. The first
  argument is the word being read.
\<close>

fun split_from :: "string \<Rightarrow> string \<Rightarrow> string list" where
  "split_from w [] = (if w = [] then [] else [w])"
| "split_from w (c # cs) =
     (if is_space c then (if w = [] then split_from [] cs else w # split_from [] cs)
      else split_from (w @ [c]) cs)"

definition split :: "string \<Rightarrow> string list" where
  "split s = split_from [] s"

text \<open>\<open>" ".join(ws)\<close>\<close>

fun join :: "string list \<Rightarrow> string" where
  "join [] = []"
| "join [w] = w"
| "join (w # v # ws) = w @ '' '' @ join (v # ws)"

text \<open>\<open>s.strip()\<close>\<close>

definition strip :: "string \<Rightarrow> string" where
  "strip s = rev (dropWhile is_space (rev (dropWhile is_space s)))"

text \<open>\<open>s.startswith(p)\<close>\<close>

definition startswith :: "string \<Rightarrow> string \<Rightarrow> bool" where
  "startswith s p = (take (length p) s = p)"

text \<open>What \<open>split\<close> yields: non-empty strings without whitespace.\<close>

definition is_word :: "string \<Rightarrow> bool" where
  "is_word w = (w \<noteq> [] \<and> (\<forall>c \<in> set w. \<not> is_space c))"

section \<open>The word-overlap merger (\<open>merge_with_overlap\<close>)\<close>

text \<open>
  The scan \<open>for i in range(len(last_word_prev))\<close>: the second argument is
  \<open>last_word_prev[i:]\<close>, which is empty exactly when \<open>i\<close> has reached the length of
  the word. \<open>Some i\<close> is \<open>overlap_index = i\<close> at the \<open>break\<close>, \<open>None\<close> is the
  sentinel \<open>-1\<close>.
\<close>

fun overlap_scan :: "nat \<Rightarrow> string \<Rightarrow> string \<Rightarrow> nat option" where
  "overlap_scan i [] first_word_curr = None"
| "overlap_scan i (c # cs) first_word_curr =
     (if startswith first_word_curr (c # cs) then Some i
      else overlap_scan (Suc i) cs first_word_curr)"

definition merge_with_overlap :: "string \<Rightarrow> string \<Rightarrow> string" where
  "merge_with_overlap previous current =
     (let previous_words = split previous;
          current_words = split current
      in if previous_words = [] \<or> current_words = [] then previous @ '' '' @ current
         else
           let last_word_prev = last previous_words;
               first_word_curr = hd current_words
           in if last_word_prev = first_word_curr
              then previous @ '' '' @ join (tl current_words)
              else (case overlap_scan 0 last_word_prev first_word_curr of
                      Some overlap_index \<Rightarrow>
                        join (butlast previous_words
                              @ [take overlap_index last_word_prev @ first_word_curr]
                              @ tl current_words)
                    | None \<Rightarrow> previous @ '' '' @ current))"

section \<open>The chunked transcription pipeline (\<open>transcribe_audio_with_overlap\<close>)\<close>

type_synonym byte = "8 word"

text \<open>
  Exceptions are values. \<open>OSError\<close> is what \<open>open(wav_path, "rb")\<close> raises,
  \<open>IndexError\<close> what \<open>result.alternatives[0]\<close> raises on a result without
  alternatives, \<open>AttributeError\<close> what \<open>response.get\<close> raises on a value that is not
  a dict, \<open>ExternalError\<close> stands for whatever an external collaborator raises, and
  \<open>RuntimeError e\<close> is \<open>RuntimeError(f"Error during audio transcription: {e}")\<close>.
\<close>

datatype exn =
    WebSocketDisconnect
  | ValidationError string
  | OSError
  | IndexError
  | AttributeError
  | ExternalError string
  | RuntimeError exn

text \<open>\<open>int(0.5 * 16000 * 2)\<close> and \<open>int(5 * 16000 * 2)\<close>\<close>

definition overlap_duration :: nat where
  "overlap_duration = 16000"

definition chunk_duration :: nat where
  "chunk_duration = 160000"

text \<open>
  \<open>speech_client.recognize\<close> is external. It is given the number of calls made before
  this one (so that its answer may depend on more than the bytes) and the chunk; it raises,
  or returns for each result the transcripts of its ranked alternatives.
\<close>

type_synonym recognizer = "nat \<Rightarrow> byte list \<Rightarrow> exn + string list list"

text \<open>\<open>[result.alternatives[0].transcript for result in response.results]\<close>\<close>

fun first_alternatives :: "string list list \<Rightarrow> exn + string list" where
  "first_alternatives [] = Inr []"
| "first_alternatives (alternatives # results) =
     (case alternatives of
        [] \<Rightarrow> Inl IndexError
      | transcript # _ \<Rightarrow>
          (case first_alternatives results of
             Inl e \<Rightarrow> Inl e
           | Inr ts \<Rightarrow> Inr (transcript # ts)))"

text \<open>\<open>xs[start:end]\<close> for \<open>0 \<le> start\<close>, \<open>0 \<le> end\<close>\<close>

definition slice :: "'a list \<Rightarrow> nat \<Rightarrow> nat \<Rightarrow> 'a list" where
  "slice xs start end = take (end - start) (drop start xs)"

text \<open>
  The \<open>while start < len(audio_content)\<close> loop. \<open>calls\<close> is the list of the calls made
  to the recognizer so far: for each one \<open>start\<close>, \<open>end\<close> and the \<open>chunk\<close> that was passed.
  The result is that list and either the exception that left the loop or the accumulated
  transcription.
\<close>

function transcribe_loop ::
  "recognizer \<Rightarrow> byte list \<Rightarrow> nat \<Rightarrow> string \<Rightarrow> string
     \<Rightarrow> (nat \<times> nat \<times> byte list) list
     \<Rightarrow> (nat \<times> nat \<times> byte list) list \<times> (exn + string)" where
  "transcribe_loop recognize audio_content start previous_transcription transcription calls =
     (if start < length audio_content then
        let end = min (start + chunk_duration + overlap_duration) (length audio_content);
            chunk = slice audio_content start end;
            calls' = calls @ [(start, end, chunk)]
        in case recognize (length calls) chunk of
             Inl e \<Rightarrow> (calls', Inl e)
           | Inr results \<Rightarrow>
               (case first_alternatives results of
                  Inl e \<Rightarrow> (calls', Inl e)
                | Inr transcripts \<Rightarrow>
                    let chunk_transcription = join transcripts
                    in transcribe_loop recognize audio_content (start + chunk_duration)
                         chunk_transcription
                         (transcription @
                            (if previous_transcription \<noteq> []
                             then merge_with_overlap previous_transcription chunk_transcription
                             else chunk_transcription))
                         calls')
      else (calls, Inr transcription))"
  by pat_completeness auto
termination
  by (relation "measure (\<lambda>(r, a, s, p, t, c). length a - s)") (auto simp: chunk_duration_def)

declare transcribe_loop.simps [simp del]

text \<open>
  \<open>read_file wav_path\<close> is the content of the file, \<open>None\<close> when it cannot be opened.
  Every exception of the body is caught and raised again as a \<open>RuntimeError\<close>.
\<close>

definition transcribe_audio_with_overlap ::
  "recognizer \<Rightarrow> (string \<Rightarrow> byte list option) \<Rightarrow> string
     \<Rightarrow> (nat \<times> nat \<times> byte list) list \<times> (exn + string)" where
  "transcribe_audio_with_overlap recognize read_file wav_path =
     (case read_file wav_path of
        None \<Rightarrow> ([], Inl (RuntimeError OSError))
      | Some audio_content \<Rightarrow>
          (case transcribe_loop recognize audio_content 0 [] [] [] of
             (calls, Inl e) \<Rightarrow> (calls, Inl (RuntimeError e))
           | (calls, Inr transcription) \<Rightarrow> (calls, Inr (strip transcription))))"

text \<open>
  The pieces of one pass of the loop, named so that properties of a run can be stated:
  the window of pass \<open>k\<close> (\<open>start = k * chunk_duration\<close>), the number of passes over
  a buffer, the value of \<open>chunk_transcription\<close> in pass \<open>k\<close> (or the exception that pass
  raises), and what one pass appends to \<open>transcription\<close>.
\<close>

definition window :: "nat \<Rightarrow> nat \<Rightarrow> nat \<times> nat" where
  "window len k = (k * chunk_duration, min (k * chunk_duration + chunk_duration + overlap_duration) len)"

text \<open>The call of pass \<open>k\<close>, as the loop records it.\<close>

definition submitted :: "byte list \<Rightarrow> nat \<Rightarrow> nat \<times> nat \<times> byte list" where
  "submitted audio_content k =
     (case window (length audio_content) k of
        (start, end) \<Rightarrow> (start, end, slice audio_content start end))"

definition window_count :: "nat \<Rightarrow> nat" where
  "window_count len = (len + (chunk_duration - 1)) div chunk_duration"

definition fragment :: "recognizer \<Rightarrow> byte list \<Rightarrow> nat \<Rightarrow> exn + string" where
  "fragment rec audio_content k =
     (case rec k (slice audio_content (fst (window (length audio_content) k))
                                      (snd (window (length audio_content) k))) of
        Inl e \<Rightarrow> Inl e
      | Inr results \<Rightarrow>
          (case first_alternatives results of
             Inl e \<Rightarrow> Inl e
           | Inr transcripts \<Rightarrow> Inr (join transcripts)))"

text \<open>The fragment as text, for a pass that did not raise.\<close>

definition fragment_text :: "recognizer \<Rightarrow> byte list \<Rightarrow> nat \<Rightarrow> string" where
  "fragment_text rec audio_content k =
     (case fragment rec audio_content k of Inl e \<Rightarrow> [] | Inr f \<Rightarrow> f)"

definition append_step :: "string \<Rightarrow> string \<Rightarrow> string" where
  "append_step previous_transcription chunk_transcription =
     (if previous_transcription \<noteq> []
      then merge_with_overlap previous_transcription chunk_transcription
      else chunk_transcription)"

text \<open>
  What the passes over the fragments \<open>fs\<close> append to \<open>transcription\<close>, starting with
  \<open>previous_transcription\<close>.
\<close>

fun stitch_from :: "string \<Rightarrow> string list \<Rightarrow> string" where
  "stitch_from previous_transcription [] = []"
| "stitch_from previous_transcription (f # fs) =
     append_step previous_transcription f @ stitch_from f fs"

text \<open>
  The windows as the specification words them, for comparison: byte offsets
  \<open>[cursor, min(cursor + windowBytes + overlapBytes, length))\<close> with
  \<open>windowBytes = 160000\<close> and \<open>overlapBytes = 16000\<close>, the cursor advancing by
  \<open>windowBytes\<close> while it is below the length.
\<close>

definition spec_windows :: "nat \<Rightarrow> (nat \<times> nat) list" where
  "spec_windows len =
     map (\<lambda>k. (k * 160000, min (k * 160000 + 160000 + 16000) len))
       [0 ..< (len + 159999) div 160000]"

text \<open>
  The calls as the specification words them: one for each window, in order, submitting
  the bytes of the buffer at the offsets \<open>start, \<dots>, end - 1\<close>.
\<close>

definition spec_calls :: "byte list \<Rightarrow> (nat \<times> nat \<times> byte list) list" where
  "spec_calls audio_content =
     map (\<lambda>(start, end). (start, end, map (\<lambda>i. audio_content ! i) [start ..< end]))
       (spec_windows (length audio_content))"

text \<open>
  The transcript as the specification words it, for comparison: the first fragment,
  followed by \<open>merge(f(i-1), f(i))\<close> for each later fragment, trimmed.
\<close>

definition spec_transcript :: "string list \<Rightarrow> string" where
  "spec_transcript fs =
     strip (case fs of
              [] \<Rightarrow> []
            | f # rest \<Rightarrow> f @ concat (map (\<lambda>(a, b). merge_with_overlap a b) (zip fs rest)))"

section \<open>The connection handler (\<open>server.py\<close>)\<close>

text \<open>
  JSON values, as \<open>receive_json\<close> yields them and the external collaborators return
  them (numbers are integers here), with Python's truth value.
\<close>

datatype json =
    JNull
  | JBool bool
  | JNum int
  | JStr string
  | JList "json list"
  | JDict "(string \<times> json) list"

fun truthy :: "json \<Rightarrow> bool" where
  "truthy JNull = False"
| "truthy (JBool b) = b"
| "truthy (JNum n) = (n \<noteq> 0)"
| "truthy (JStr s) = (s \<noteq> [])"
| "truthy (JList xs) = (xs \<noteq> [])"
| "truthy (JDict d) = (d \<noteq> [])"

text \<open>\<open>d.get(k)\<close> on a dict: the value, \<open>None\<close> when the key is missing\<close>

definition dict_get :: "(string \<times> json) list \<Rightarrow> string \<Rightarrow> json" where
  "dict_get d k = (case map_of d k of None \<Rightarrow> JNull | Some v \<Rightarrow> v)"

text \<open>
  The pydantic model \<open>EventData\<close>; \<open>ev_type\<close> is its field \<open>type\<close>, and \<open>None\<close> is the
  default of the optional fields.
\<close>

record EventData =
  ev_type :: string
  code :: "string option"
  ques :: "string option"
  audio_data :: "string option"

text \<open>
  The attributes of an \<open>InterviewBot\<close> that the connection handler reads and writes:
  the pending answer, and the three \<open>asyncio.Event\<close>s (\<open>True\<close> is set).
\<close>

record InterviewBot =
  current_answer :: "string option"
  answer_event :: bool
  coding_event :: bool
  stop_interview :: bool

text \<open>
  Modelled from the spec: the constructor of \<open>InterviewBot\<close> (\<open>app/interviewer.py\<close> is
  not among the sources). "construct a new handle (fresh signals, all unset)".
\<close>

definition new_InterviewBot :: InterviewBot where
  "new_InterviewBot =
     \<lparr>current_answer = None, answer_event = False, coding_event = False,
      stop_interview = False\<rparr>"

record InterviewState =
  cv_text :: string
  job_description :: string
  interview_bot :: "InterviewBot option"
  results :: json
  state_stop_interview :: bool

definition new_InterviewState :: InterviewState where
  "new_InterviewState =
     \<lparr>cv_text = [], job_description = [], interview_bot = None,
      results = JDict [(''INTRODUCTION'', JDict []), (''PROJECT'', JDict []),
                       (''CODING'', JDict []), (''TECHNICAL'', JDict []),
                       (''OUTRO'', JDict [])],
      state_stop_interview = False\<rparr>"

text \<open>The messages of \<open>websocket.send_json\<close>, one constructor for each \<open>"type"\<close>.\<close>

datatype out_msg =
    Error_msg string
  | Cv_uploaded string
  | Jd_analyzed string
  | Interview_started
  | Code_evaluation json
  | Coding_error exn
  | Interview_end
  | Analysis json
  | Summary_analysis json
  | Test_coding_question string
  | Transcription_complete string
  | Transcription_error exn

text \<open>
  What a connection handler acts on: the session state, the messages sent so far, the
  number of interview tasks launched with \<open>asyncio.create_task\<close>, and the bots whose
  reference the handler has dropped (as they were when dropped). Of the interview task
  the model has one step: during the sleep of \<open>handle_end_interview\<close>, which is there
  to let the task see the stop signal, the task may return and run the \<open>finally\<close> of
  \<open>handle_interview\<close>. Everywhere else a handler runs from its first to its last line
  against the state the previous handler left.
\<close>

record world =
  state :: InterviewState
  sent :: "out_msg list"
  tasks :: nat
  dropped :: "InterviewBot list"

definition send_json :: "out_msg \<Rightarrow> world \<Rightarrow> world" where
  "send_json m w = w\<lparr>sent := sent w @ [m]\<rparr>"

definition set_bot :: "InterviewBot option \<Rightarrow> world \<Rightarrow> world" where
  "set_bot b w = w\<lparr>state := (state w)\<lparr>interview_bot := b\<rparr>\<rparr>"

text \<open>
  The external collaborators: \<open>EventData(**data)\<close>, \<open>get_cv\<close>, \<open>get_job_description\<close>,
  \<open>evaluate_code\<close> (for the bot's \<open>llm\<close>), \<open>analyze_results\<close>, \<open>summary_results\<close>,
  the index \<open>random.choice\<close> draws, \<open>speech_client.recognize\<close> and the file system.
  Each one that can raise returns \<open>Inl\<close> of the exception. \<open>interview_task_ends w\<close>
  says whether the interview task, with the stop signal set as in \<open>w\<close>, returns from
  \<open>conduct_interview\<close> before the sleep of \<open>handle_end_interview\<close> is over.
\<close>

record env =
  validate :: "json \<Rightarrow> exn + EventData"
  get_cv :: "json \<Rightarrow> exn + string"
  get_job_description :: "json \<Rightarrow> exn + string"
  evaluate_code :: "string option \<Rightarrow> string option \<Rightarrow> exn + json"
  analyze_results :: "json \<Rightarrow> exn + json"
  summary_results :: "json \<Rightarrow> exn + json"
  random_index :: nat
  recognize :: recognizer
  read_file :: "string \<Rightarrow> byte list option"
  interview_task_ends :: "world \<Rightarrow> bool"

text \<open>
  The inbound side of the connection: what each \<open>await websocket.receive_json()\<close>
  gives, in order. \<open>Raises WebSocketDisconnect\<close> is the client going away; past the end
  of the list the call is still waiting.
\<close>

datatype frame = Message json | Raises exn

datatype received = Got json "frame list" | Fail exn "frame list" | Wait

fun receive_json :: "frame list \<Rightarrow> received" where
  "receive_json [] = Wait"
| "receive_json (Message data # frames) = Got data frames"
| "receive_json (Raises e # frames) = Fail e frames"

text \<open>How a coroutine ends: it returns, it raises, or it is still waiting for a frame.\<close>

datatype outcome = Returned | Raised exn | Blocked

definition handle_upload_cv :: "env \<Rightarrow> world \<Rightarrow> frame list \<Rightarrow> outcome \<times> world \<times> frame list" where
  "handle_upload_cv env w frames =
     (case receive_json frames of
        Wait \<Rightarrow> (Blocked, w, frames)
      | Fail e frames' \<Rightarrow> (Raised e, w, frames')
      | Got data frames' \<Rightarrow>
          (case get_cv env data of
             Inl e \<Rightarrow> (Raised e, w, frames')
           | Inr text \<Rightarrow>
               (Returned,
                send_json (Cv_uploaded text) (w\<lparr>state := (state w)\<lparr>cv_text := text\<rparr>\<rparr>),
                frames')))"

definition handle_analyze_jd :: "env \<Rightarrow> world \<Rightarrow> frame list \<Rightarrow> outcome \<times> world \<times> frame list" where
  "handle_analyze_jd env w frames =
     (case receive_json frames of
        Wait \<Rightarrow> (Blocked, w, frames)
      | Fail e frames' \<Rightarrow> (Raised e, w, frames')
      | Got data frames' \<Rightarrow>
          (case get_job_description env data of
             Inl e \<Rightarrow> (Raised e, w, frames')
           | Inr text \<Rightarrow>
               (Returned,
                send_json (Jd_analyzed text)
                  (w\<lparr>state := (state w)\<lparr>job_description := text\<rparr>\<rparr>),
                frames')))"

definition handle_start_interview :: "world \<Rightarrow> world" where
  "handle_start_interview w =
     (if interview_bot (state w) = None
      then send_json Interview_started
             ((set_bot (Some new_InterviewBot) w)\<lparr>tasks := Suc (tasks w)\<rparr>)
      else w)"

definition handle_answer :: "EventData \<Rightarrow> world \<Rightarrow> world" where
  "handle_answer event w =
     (case interview_bot (state w) of
        Some ibot \<Rightarrow> set_bot (Some (ibot\<lparr>current_answer := code event, answer_event := True\<rparr>)) w
      | None \<Rightarrow> w)"

text \<open>
  \<open>response and response.get("RESULT")\<close>: a falsy response is not asked for its field;
  a truthy one that is not a dict has no \<open>get\<close>.
\<close>

definition response_result :: "json \<Rightarrow> exn + bool" where
  "response_result response =
     (if \<not> truthy response then Inr False
      else (case response of
              JDict d \<Rightarrow> Inr (truthy (dict_get d ''RESULT''))
            | _ \<Rightarrow> Inl AttributeError))"

definition handle_coding :: "env \<Rightarrow> EventData \<Rightarrow> world \<Rightarrow> world" where
  "handle_coding env event w =
     (case interview_bot (state w) of
        None \<Rightarrow> w
      | Some ibot \<Rightarrow>
          (case evaluate_code env (ques event) (code event) of
             Inl e \<Rightarrow> send_json (Coding_error e) w
           | Inr response \<Rightarrow>
               let w' = send_json (Code_evaluation response) w
               in (case response_result response of
                     Inl e \<Rightarrow> send_json (Coding_error e) w'
                   | Inr True \<Rightarrow> set_bot (Some (ibot\<lparr>coding_event := True\<rparr>)) w'
                   | Inr False \<Rightarrow> w')))"

text \<open>
  \<open>stop_interview.set()\<close>, then \<open>await asyncio.sleep(0.1)\<close>. When the interview task
  returns during the sleep, the \<open>finally\<close> of \<open>handle_interview\<close> sets
  \<open>state.interview_bot = None\<close>, and \<open>state.interview_bot.stop_interview.clear()\<close>
  raises \<open>AttributeError\<close>. Otherwise the signal is cleared and the reply sent.
\<close>

definition handle_end_interview :: "env \<Rightarrow> world \<Rightarrow> outcome \<times> world" where
  "handle_end_interview env w =
     (case interview_bot (state w) of
        Some ibot \<Rightarrow>
          let w' = set_bot (Some (ibot\<lparr>stop_interview := True\<rparr>)) w
          in if interview_task_ends env w'
             then (Raised AttributeError, set_bot None w')
             else (Returned,
                   send_json Interview_end
                     (set_bot (Some (ibot\<lparr>stop_interview := False\<rparr>)) w'))
      | None \<Rightarrow> (Returned, w))"

definition handle_get_analysis :: "env \<Rightarrow> world \<Rightarrow> outcome \<times> world" where
  "handle_get_analysis env w =
     (case analyze_results env (results (state w)) of
        Inl e \<Rightarrow> (Raised e, w)
      | Inr result \<Rightarrow> (Returned, send_json (Analysis result) w))"

definition handle_summary_analysis :: "env \<Rightarrow> world \<Rightarrow> outcome \<times> world" where
  "handle_summary_analysis env w =
     (case summary_results env (results (state w)) of
        Inl e \<Rightarrow> (Raised e, w)
      | Inr summary \<Rightarrow> (Returned, send_json (Summary_analysis summary) w))"

definition handle_test_coding_question :: "env \<Rightarrow> world \<Rightarrow> world" where
  "handle_test_coding_question env w =
     send_json (Test_coding_question
       ([''Q1. Print Hello World'', ''Q2. Print Hello Anish'', ''Q3. Print Hello Duniya'']
          ! (random_index env mod 3))) w"

definition handle_audio_transcription :: "env \<Rightarrow> EventData \<Rightarrow> world \<Rightarrow> world" where
  "handle_audio_transcription env event w =
     (if audio_data event = None \<or> audio_data event = Some []
      then send_json (Error_msg ''No audio data provided'') w
      else (case snd (transcribe_audio_with_overlap (recognize env) (read_file env)
                        (the (audio_data event))) of
              Inl e \<Rightarrow> send_json (Transcription_error e) w
            | Inr transcription \<Rightarrow>
                let w' = send_json (Transcription_complete transcription) w
                in (case interview_bot (state w') of
                      Some ibot \<Rightarrow>
                        if transcription \<noteq> []
                        then set_bot (Some (ibot\<lparr>current_answer := Some transcription,
                                                 answer_event := True\<rparr>)) w'
                        else w'
                    | None \<Rightarrow> w')))"

definition handle_event ::
  "env \<Rightarrow> EventData \<Rightarrow> world \<Rightarrow> frame list \<Rightarrow> outcome \<times> world \<times> frame list" where
  "handle_event env event w frames =
     (if ev_type event = ''upload_cv'' then handle_upload_cv env w frames
      else if ev_type event = ''analyze_jd'' then handle_analyze_jd env w frames
      else if ev_type event = ''start_interview'' then (Returned, handle_start_interview w, frames)
      else if ev_type event = ''answer'' then (Returned, handle_answer event w, frames)
      else if ev_type event = ''coding'' then (Returned, handle_coding env event w, frames)
      else if ev_type event = ''end_interview''
        then (case handle_end_interview env w of (r, w') \<Rightarrow> (r, w', frames))
      else if ev_type event = ''get_analysis''
        then (case handle_get_analysis env w of (r, w') \<Rightarrow> (r, w', frames))
      else if ev_type event = ''get_summary_analysis''
        then (case handle_summary_analysis env w of (r, w') \<Rightarrow> (r, w', frames))
      else if ev_type event = ''test_coding_question''
        then (Returned, handle_test_coding_question env w, frames)
      else if ev_type event = ''audio''
        then (Returned, handle_audio_transcription env event w, frames)
      else (Returned, w, frames))"

text \<open>The body of the inner \<open>try\<close> of \<open>websocket_endpoint\<close>\<close>

definition try_body :: "env \<Rightarrow> frame list \<Rightarrow> world \<Rightarrow> outcome \<times> world \<times> frame list" where
  "try_body env frames w =
     (case receive_json frames of
        Wait \<Rightarrow> (Blocked, w, frames)
      | Fail e frames' \<Rightarrow> (Raised e, w, frames')
      | Got data frames' \<Rightarrow>
          (case validate env data of
             Inl e \<Rightarrow> (Raised e, w, frames')
           | Inr event \<Rightarrow> handle_event env event w frames'))"

text \<open>One pass of \<open>while True\<close>: the inner \<open>try\<close> with its \<open>except ValidationError\<close>\<close>

definition loop_iteration :: "env \<Rightarrow> frame list \<Rightarrow> world \<Rightarrow> outcome \<times> world \<times> frame list" where
  "loop_iteration env frames w =
     (case try_body env frames w of
        (Raised (ValidationError m), w', frames') \<Rightarrow>
          (Returned, send_json (Error_msg m) w', frames')
      | r \<Rightarrow> r)"

text \<open>
  The \<open>while True\<close> loop never returns: it is left by an exception, or it is waiting
  for the next frame when the frames given are used up.
\<close>

datatype loop_end = Awaiting | Unwound exn

function websocket_loop :: "env \<Rightarrow> frame list \<Rightarrow> world \<Rightarrow> loop_end \<times> world" where
  "websocket_loop env frames w =
     (case loop_iteration env frames w of
        (Returned, w', frames') \<Rightarrow> websocket_loop env frames' w'
      | (Raised e, w', frames') \<Rightarrow> (Unwound e, w')
      | (Blocked, w', frames') \<Rightarrow> (Awaiting, w'))"
  by pat_completeness auto
termination
proof (relation "measure (\<lambda>(env, frames, w). length frames)")
  show "wf (measure (\<lambda>(env, frames, w). length frames))" by simp
next
  fix env :: env and frames :: "frame list" and w :: world and x1 x2 w' frames'
  assume it: "(x1, x2) = loop_iteration env frames w" "x1 = Returned" "(w', frames') = x2"
  have recv: "length fs' < length fs" if "receive_json fs = Got d fs' \<or> receive_json fs = Fail e fs'"
    for fs fs' d e
    using that by (cases fs rule: receive_json.cases) auto
  have inner: "length fs' \<le> length fs"
    if "handle_upload_cv env v fs = (r, v', fs') \<or> handle_analyze_jd env v fs = (r, v', fs')"
    for v fs r v' fs'
    using that recv [of fs]
    by (auto simp: handle_upload_cv_def handle_analyze_jd_def
             split: received.splits sum.splits dest!: less_imp_le)
  have ev: "length fs' \<le> length fs" if "handle_event env event v fs = (r, v', fs')"
    for event v fs r v' fs'
    using that inner [of v fs r v' fs']
    by (auto simp: handle_event_def split: if_splits prod.splits)
  have body: "length fs' < length fs" if "try_body env fs v = (r, v', fs')" "r \<noteq> Blocked"
    for v fs r v' fs'
    using that recv [of fs] ev
    by (fastforce simp: try_body_def split: received.splits sum.splits)
  from it have "loop_iteration env frames w = (Returned, w', frames')" by simp
  then have "\<exists>r v. try_body env frames w = (r, v, frames') \<and> r \<noteq> Blocked"
    by (auto simp: loop_iteration_def send_json_def split: prod.splits outcome.splits exn.splits)
  then have "length frames' < length frames" using body by blast
  then show "((env, frames', w'), (env, frames, w)) \<in> measure (\<lambda>(env, frames, w). length frames)"
    by simp
qed

declare websocket_loop.simps [simp del]

text \<open>The \<open>finally\<close> block: the bot is told to stop and its reference is dropped.\<close>

definition finally_block :: "world \<Rightarrow> world" where
  "finally_block w =
     (case interview_bot (state w) of
        Some ibot \<Rightarrow> (set_bot None w)\<lparr>dropped := dropped w @ [ibot\<lparr>stop_interview := True\<rparr>]\<rparr>
      | None \<Rightarrow> w)"

text \<open>
  \<open>websocket_endpoint\<close>: both outer \<open>except\<close> clauses only log, so whatever leaves the
  loop ends the coroutine after the \<open>finally\<close> block.
\<close>

definition websocket_endpoint :: "env \<Rightarrow> frame list \<Rightarrow> loop_end \<times> world" where
  "websocket_endpoint env frames =
     (case websocket_loop env frames
             \<lparr>state = new_InterviewState, sent = [], tasks = 0, dropped = []\<rparr> of
        (Unwound e, w) \<Rightarrow> (Unwound e, finally_block w)
      | (Awaiting, w) \<Rightarrow> (Awaiting, w))"

section \<open>Example inputs\<close>

text \<open>
  Concrete collaborators and inputs at which the properties below are evaluated. The
  recognizer answers its first call with one result \<open>a\<close>, its second with no result
  (silence) and every later one with \<open>b\<close>; the audio files hold one window, two
  windows, and one byte more than two windows.
\<close>

definition example_recognize :: recognizer where
  "example_recognize k chunk =
     (if k = 0 then Inr [[''a'']] else if k = 1 then Inr [] else Inr [[''b'']])"

definition example_read_file :: "string \<Rightarrow> byte list option" where
  "example_read_file path =
     (if path = ''empty.wav'' then Some []
      else if path = ''one.wav'' then Some (replicate 160000 0)
      else if path = ''two.wav'' then Some (replicate 320000 0)
      else if path = ''three.wav'' then Some (replicate 320001 0)
      else None)"

definition failing_recognize :: recognizer where
  "failing_recognize k chunk = Inl (ExternalError ''unreachable'')"

text \<open>A validator in the manner of \<open>EventData(**data)\<close>: a dict with a string \<open>type\<close>.\<close>

definition str_field :: "(string \<times> json) list \<Rightarrow> string \<Rightarrow> string option" where
  "str_field d k = (case dict_get d k of JStr s \<Rightarrow> Some s | _ \<Rightarrow> None)"

definition example_validate :: "json \<Rightarrow> exn + EventData" where
  "example_validate data =
     (case data of
        JDict d \<Rightarrow>
          (case dict_get d ''type'' of
             JStr t \<Rightarrow> Inr \<lparr>ev_type = t, code = str_field d ''code'', ques = str_field d ''ques'',
                             audio_data = str_field d ''audio_data''\<rparr>
           | _ \<Rightarrow> Inl (ValidationError ''type: field required''))
      | _ \<Rightarrow> Inl (ExternalError ''TypeError''))"

definition example_env :: env where
  "example_env =
     \<lparr>validate = example_validate,
      get_cv = (\<lambda>data. Inr ''cv''),
      get_job_description = (\<lambda>data. Inr ''jd''),
      evaluate_code = (\<lambda>q c. if q = Some ''crash'' then Inl (ExternalError ''evaluator down'')
                              else if c = Some ''print(1)'' then Inr (JDict [(''RESULT'', JStr ''PASS'')])
                              else Inr (JDict [(''RESULT'', JBool False)])),
      analyze_results = (\<lambda>r. Inl (ExternalError ''analysis failed'')),
      summary_results = (\<lambda>r. Inr JNull),
      random_index = 0,
      recognize = example_recognize,
      read_file = example_read_file,
      interview_task_ends = (\<lambda>w. False)\<rparr>"

definition example_world :: world where
  "example_world = \<lparr>state = new_InterviewState, sent = [], tasks = 0, dropped = []\<rparr>"

definition running_world :: world where
  "running_world = set_bot (Some new_InterviewBot) example_world"

text \<open>The same collaborators, with an interview task that ends during the sleep.\<close>

definition stopping_env :: env where
  "stopping_env = example_env\<lparr>interview_task_ends := (\<lambda>w. True)\<rparr>"

text \<open>
  "The outcome has a verdict field", as the specification words the condition of
  \<open>handle_coding\<close>, for comparison.
\<close>

definition spec_has_verdict_field :: "json \<Rightarrow> bool" where
  "spec_has_verdict_field response =
     (case response of JDict d \<Rightarrow> ''RESULT'' \<in> fst ` set d | _ \<Rightarrow> False)"

text \<open>Inbound messages and events for the examples.\<close>

definition example_message :: "string \<Rightarrow> json" where
  "example_message t = JDict [(''type'', JStr t)]"

definition coding_crash_message :: json where
  "coding_crash_message = JDict [(''type'', JStr ''coding''), (''ques'', JStr ''crash'')]"

definition audio_missing_message :: json where
  "audio_missing_message = JDict [(''type'', JStr ''audio''), (''audio_data'', JStr ''missing.wav'')]"

definition answer_message :: json where
  "answer_message = JDict [(''type'', JStr ''answer''), (''code'', JStr ''42'')]"

definition audio_event :: "string \<Rightarrow> EventData" where
  "audio_event path = \<lparr>ev_type = ''audio'', code = None, ques = None, audio_data = Some path\<rparr>"

definition coding_event_of :: "string \<Rightarrow> EventData" where
  "coding_event_of c = \<lparr>ev_type = ''coding'', code = Some c, ques = Some ''Q1'', audio_data = None\<rparr>"

section \<open>Properties of the merger\<close>

lemma split_from_words:
  "\<forall>c \<in> set w. \<not> is_space c \<Longrightarrow> \<forall>x \<in> set (split_from w s). is_word x"
proof (induction s arbitrary: w)
  case Nil
  then show ?case by (simp add: is_word_def)
next
  case (Cons a s)
  have e: "\<forall>x \<in> set (split_from [] s). is_word x" by (rule Cons.IH) simp
  show ?case
  proof (cases "is_space a")
    case True
    have "is_word w" if "w \<noteq> []" using that Cons.prems by (simp add: is_word_def)
    with True e show ?thesis by simp
  next
    case False
    with Cons.prems have "\<forall>c \<in> set (w @ [a]). \<not> is_space c" by simp
    from Cons.IH [OF this] False show ?thesis by simp
  qed
qed

lemma split_words: "x \<in> set (split s) \<Longrightarrow> is_word x"
  using split_from_words [of "[]" s] by (simp add: split_def)

lemma split_from_word:
  "\<forall>c \<in> set v. \<not> is_space c \<Longrightarrow> split_from w (v @ rest) = split_from (w @ v) rest"
  by (induction v arbitrary: w) simp_all

lemma split_from_space:
  "w \<noteq> [] \<Longrightarrow> split_from w ('' '' @ rest) = w # split_from [] rest"
  by (simp add: is_space_def)

lemma split_join:
  "\<forall>w \<in> set ws. is_word w \<Longrightarrow> split (join ws) = ws"
proof (induction ws rule: join.induct)
  case 1
  then show ?case by (simp add: split_def)
next
  case (2 w)
  then have "split_from [] (w @ []) = split_from ([] @ w) []"
    by (intro split_from_word) (simp add: is_word_def)
  with 2 show ?case by (simp add: split_def is_word_def)
next
  case (3 w v ws)
  then have w: "is_word w" and ih: "split (join (v # ws)) = v # ws" by simp_all
  have "split_from [] (w @ ('' '' @ join (v # ws))) = split_from ([] @ w) ('' '' @ join (v # ws))"
    using w by (intro split_from_word) (simp add: is_word_def)
  also have "\<dots> = w # split_from [] (join (v # ws))"
  proof -
    have "w \<noteq> []" using w by (simp add: is_word_def)
    then have "split_from w ('' '' @ join (v # ws)) = w # split_from [] (join (v # ws))"
      by (rule split_from_space)
    then show ?thesis by (simp only: append_Nil)
  qed
  finally show ?case using ih by (simp add: split_def)
qed

lemma is_word_merged:
  assumes "is_word lw" and "is_word fw"
  shows "is_word (take i lw @ fw)"
  using assms by (auto simp: is_word_def dest: in_set_takeD)

lemma overlap_scan_Some:
  "overlap_scan i suffix fw = Some r \<Longrightarrow>
     i \<le> r \<and> r < i + length suffix \<and> startswith fw (drop (r - i) suffix)
     \<and> (\<forall>j < r - i. \<not> startswith fw (drop j suffix))"
proof (induction i suffix fw arbitrary: r rule: overlap_scan.induct)
  case (1 i fw)
  then show ?case by simp
next
  case (2 i c cs fw)
  show ?case
  proof (cases "startswith fw (c # cs)")
    case True
    with 2 show ?thesis by simp
  next
    case False
    with 2 have scan: "overlap_scan (Suc i) cs fw = Some r" by simp
    from "2.IH"[OF False scan] have ih:
      "Suc i \<le> r" "r < Suc i + length cs" "startswith fw (drop (r - Suc i) cs)"
      "\<forall>j < r - Suc i. \<not> startswith fw (drop j cs)" by auto
    have d: "r - i = Suc (r - Suc i)" using ih(1) by simp
    have "\<not> startswith fw (drop j (c # cs))" if "j < r - i" for j
    proof (cases j)
      case 0
      then show ?thesis using False by simp
    next
      case (Suc k)
      then have "k < r - Suc i" using that d by simp
      then show ?thesis using ih(4) Suc by simp
    qed
    then show ?thesis using ih d by simp
  qed
qed

lemma overlap_scan_None:
  "overlap_scan i suffix fw = None \<Longrightarrow> k < length suffix \<Longrightarrow> \<not> startswith fw (drop k suffix)"
proof (induction i suffix fw arbitrary: k rule: overlap_scan.induct)
  case (1 i fw)
  then show ?case by simp
next
  case (2 i c cs fw)
  then show ?case by (cases k) (auto split: if_splits)
qed

text \<open>
  C9. When either input has no words, the merger returns \<open>previous + " " + current\<close>;
  it is a total function of its two strings, so nothing is raised.
\<close>

theorem merge_no_words:
  assumes "split previous = [] \<or> split current = []"
  shows "merge_with_overlap previous current = previous @ '' '' @ current"
  using assms by (auto simp: merge_with_overlap_def Let_def)

theorem merge_no_words_witness:
  "split [] = [] \<and> merge_with_overlap [] ''anything'' = '' anything''"
  using merge_no_words [of "[]" "''anything''"] by (simp add: split_def)

text \<open>
  C5. When both inputs have words, the last word of \<open>previous\<close> differs from the first
  word of \<open>current\<close>, and some non-empty suffix \<open>last_word[k:]\<close> is a prefix of the first
  word, the merger uses the least index \<open>i\<close> (the longest suffix) with that property and
  returns, joined by single spaces, the words of \<open>previous\<close> with the last one replaced by
  \<open>last_word[:i] + first_word\<close>, followed by the remaining words of \<open>current\<close>; these
  are exactly the words of the result.
\<close>

theorem merge_partial_overlap:
  assumes "split previous = pw" and "split current = cw"
    and "pw \<noteq> []" and "cw \<noteq> []" and "last pw \<noteq> hd cw"
    and "k < length (last pw)" and "startswith (hd cw) (drop k (last pw))"
  shows "\<exists>i \<le> k. startswith (hd cw) (drop i (last pw))
           \<and> (\<forall>j < i. \<not> startswith (hd cw) (drop j (last pw)))
           \<and> merge_with_overlap previous current
               = join (butlast pw @ [take i (last pw) @ hd cw] @ tl cw)
           \<and> split (merge_with_overlap previous current)
               = butlast pw @ [take i (last pw) @ hd cw] @ tl cw"
proof (cases "overlap_scan 0 (last pw) (hd cw)")
  case None
  from overlap_scan_None [OF None assms(6)] assms(7) show ?thesis by simp
next
  case (Some i)
  from overlap_scan_Some [OF Some]
  have i: "startswith (hd cw) (drop i (last pw))"
    and least: "\<forall>j < i. \<not> startswith (hd cw) (drop j (last pw))" by simp_all
  have "i \<le> k"
  proof (rule ccontr)
    assume "\<not> i \<le> k"
    then have "k < i" by simp
    with least assms(7) show False by blast
  qed
  moreover have m: "merge_with_overlap previous current
      = join (butlast pw @ [take i (last pw) @ hd cw] @ tl cw)"
    using assms(1-5) Some by (simp add: merge_with_overlap_def Let_def)
  moreover have "split (merge_with_overlap previous current)
      = butlast pw @ [take i (last pw) @ hd cw] @ tl cw"
  proof -
    have pw: "\<forall>w \<in> set pw. is_word w" and cw: "\<forall>w \<in> set cw. is_word w"
      using assms(1,2) split_words by blast+
    have "is_word (last pw)" "is_word (hd cw)" using pw cw assms(3,4) by simp_all
    then have "is_word (take i (last pw) @ hd cw)" by (rule is_word_merged)
    moreover have "\<forall>w \<in> set (butlast pw). is_word w" using pw by (meson in_set_butlastD)
    moreover have "\<forall>w \<in> set (tl cw). is_word w" using cw assms(4) by (meson list.set_sel(2))
    ultimately have "\<forall>w \<in> set (butlast pw @ [take i (last pw) @ hd cw] @ tl cw). is_word w"
      by auto
    then show ?thesis unfolding m by (rule split_join)
  qed
  ultimately show ?thesis using i least by blast
qed

theorem merge_partial_overlap_witness:
  "merge_with_overlap ''he  xaa'' ''aab c'' = ''he xaab c''
   \<and> startswith ''aab'' ''aa'' \<and> startswith ''aab'' ''a'' \<and> \<not> startswith ''aab'' ''xaa''"
proof -
  have pw: "split ''he  xaa'' = [''he'', ''xaa'']"
    by (simp add: split_def is_space_def)
  have cw: "split ''aab c'' = [''aab'', ''c'']"
    by (simp add: split_def is_space_def)
  have "\<exists>i \<le> 2. startswith (hd [''aab'', ''c'']) (drop i (last [''he'', ''xaa'']))
           \<and> (\<forall>j < i. \<not> startswith (hd [''aab'', ''c'']) (drop j (last [''he'', ''xaa''])))
           \<and> merge_with_overlap ''he  xaa'' ''aab c''
               = join (butlast [''he'', ''xaa''] @ [take i (last [''he'', ''xaa'']) @ hd [''aab'', ''c'']]
                       @ tl [''aab'', ''c''])
           \<and> split (merge_with_overlap ''he  xaa'' ''aab c'')
               = butlast [''he'', ''xaa''] @ [take i (last [''he'', ''xaa'']) @ hd [''aab'', ''c'']]
                   @ tl [''aab'', ''c'']"
    by (rule merge_partial_overlap [OF pw cw]) (simp_all add: startswith_def)
  then obtain i where le: "i \<le> 2"
    and pre: "startswith ''aab'' (drop i ''xaa'')"
    and least: "\<forall>j < i. \<not> startswith ''aab'' (drop j ''xaa'')"
    and m: "merge_with_overlap ''he  xaa'' ''aab c'' = join ([''he''] @ [take i ''xaa'' @ ''aab''] @ [''c''])"
    by auto
  have one: "startswith ''aab'' (drop 1 ''xaa'')" by (simp add: startswith_def)
  have "\<not> startswith ''aab'' (drop 0 ''xaa'')" by (simp add: startswith_def)
  with pre have "i \<noteq> 0" by (rule_tac notI) simp
  moreover have "i \<noteq> 2"
  proof
    assume "i = 2"
    with least have "\<not> startswith ''aab'' (drop 1 ''xaa'')" by (metis one_less_numeral_iff semiring_norm(76))
    with one show False by contradiction
  qed
  ultimately have "i = 1" using le by arith
  with m show ?thesis by (simp add: startswith_def)
qed

section \<open>Properties of the transcription pipeline\<close>

lemma window_count_step:
  fixes k n W :: nat
  assumes "0 < W"
  shows "k * W < n \<longleftrightarrow> k < (n + (W - 1)) div W"
proof -
  have "k < (n + (W - 1)) div W \<longleftrightarrow> Suc k \<le> (n + (W - 1)) div W" by auto
  also have "\<dots> \<longleftrightarrow> Suc k * W \<le> n + (W - 1)"
    using assms by (simp add: less_eq_div_iff_mult_less_eq)
  also have "\<dots> \<longleftrightarrow> k * W < n" using assms by (cases W) auto
  finally show ?thesis by simp
qed

lemma window_count_iff: "k * chunk_duration < len \<longleftrightarrow> k < window_count len"
  unfolding window_count_def by (rule window_count_step) (simp add: chunk_duration_def)

lemma transcribe_loop_step:
  assumes "length calls = k"
  shows "transcribe_loop rec audio (k * chunk_duration) prev acc calls =
     (if k < window_count (length audio) then
        (case fragment rec audio k of
           Inl e \<Rightarrow> (calls @ [submitted audio k], Inl e)
         | Inr f \<Rightarrow> transcribe_loop rec audio (Suc k * chunk_duration) f
                      (acc @ append_step prev f) (calls @ [submitted audio k]))
      else (calls, Inr acc))"
  using assms
  by (subst transcribe_loop.simps)
     (simp add: window_count_iff [symmetric] fragment_def window_def submitted_def
                append_step_def Let_def add.commute
           split: sum.splits)

lemma transcribe_loop_calls:
  "length calls = k \<Longrightarrow>
   transcribe_loop rec audio (k * chunk_duration) prev acc calls = (calls', res) \<Longrightarrow>
   \<exists>j \<ge> k. calls' = calls @ map (submitted audio) [k ..< j]
      \<and> j \<le> max k (window_count (length audio))
      \<and> (k < window_count (length audio) \<longrightarrow> k < j)
      \<and> (\<forall>t. res = Inr t \<longrightarrow> j = max k (window_count (length audio)))"
proof (induction "window_count (length audio) - k" arbitrary: k prev acc calls)
  case 0
  then have "\<not> k < window_count (length audio)" by simp
  with 0 have "calls' = calls" by (simp add: transcribe_loop_step)
  then show ?case using 0 by (intro exI [of _ k]) (auto simp: max_def)
next
  case (Suc d)
  then have lt: "k < window_count (length audio)" by simp
  show ?case
  proof (cases "fragment rec audio k")
    case (Inl e)
    with Suc lt have "calls' = calls @ [submitted audio k]" "res = Inl e"
      by (simp_all add: transcribe_loop_step)
    then show ?thesis using lt by (intro exI [of _ "Suc k"]) (auto simp: max_def)
  next
    case (Inr f)
    with Suc.prems lt have rest:
      "transcribe_loop rec audio (Suc k * chunk_duration) f (acc @ append_step prev f)
         (calls @ [submitted audio k]) = (calls', res)"
      by (simp add: transcribe_loop_step)
    have d: "d = window_count (length audio) - Suc k" using Suc.hyps(2) by simp
    have len: "length (calls @ [submitted audio k]) = Suc k" using Suc.prems by simp
    from Suc.hyps(1) [OF d len rest] obtain j where j: "Suc k \<le> j"
      "calls' = (calls @ [submitted audio k]) @ map (submitted audio) [Suc k ..< j]"
      "j \<le> max (Suc k) (window_count (length audio))"
      "\<forall>t. res = Inr t \<longrightarrow> j = max (Suc k) (window_count (length audio))"
      by blast
    from j(1,2) have "calls' = calls @ map (submitted audio) [k ..< j]"
      by (simp add: upt_conv_Cons)
    then show ?thesis using j(1,3,4) lt by (intro exI [of _ j]) (auto simp: max_def)
  qed
qed

lemma transcribe_loop_fails:
  "length calls = k \<Longrightarrow> k \<le> i \<Longrightarrow> i < window_count (length audio) \<Longrightarrow>
   fragment rec audio i = Inl e \<Longrightarrow>
   \<exists>e'. snd (transcribe_loop rec audio (k * chunk_duration) prev acc calls) = Inl e'"
proof (induction "i - k" arbitrary: k prev acc calls)
  case 0
  then have "i = k" by simp
  with 0 show ?case by (simp add: transcribe_loop_step)
next
  case (Suc d)
  then have lt: "k < window_count (length audio)" and ki: "Suc k \<le> i" by simp_all
  show ?case
  proof (cases "fragment rec audio k")
    case (Inl e0)
    with Suc.prems lt show ?thesis by (simp add: transcribe_loop_step)
  next
    case (Inr f)
    have d: "d = i - Suc k" using Suc.hyps(2) by simp
    have len: "length (calls @ [submitted audio k]) = Suc k" using Suc.prems by simp
    from Suc.hyps(1) [OF d len ki Suc.prems(3,4)] Inr Suc.prems(1) lt
    show ?thesis by (simp add: transcribe_loop_step)
  qed
qed

lemma transcribe_loop_transcript:
  "length calls = k \<Longrightarrow>
   transcribe_loop rec audio (k * chunk_duration) prev acc calls = (calls', Inr t) \<Longrightarrow>
   t = acc @ stitch_from prev (map (fragment_text rec audio) [k ..< window_count (length audio)])
   \<and> (\<forall>i. k \<le> i \<and> i < window_count (length audio) \<longrightarrow>
          fragment rec audio i = Inr (fragment_text rec audio i))"
proof (induction "window_count (length audio) - k" arbitrary: k prev acc calls)
  case 0
  then have "\<not> k < window_count (length audio)" by simp
  with 0 show ?case by (auto simp: transcribe_loop_step)
next
  case (Suc d)
  then have lt: "k < window_count (length audio)" by simp
  show ?case
  proof (cases "fragment rec audio k")
    case (Inl e)
    with Suc lt show ?thesis by (simp add: transcribe_loop_step)
  next
    case (Inr f)
    with Suc.prems lt have rest:
      "transcribe_loop rec audio (Suc k * chunk_duration) f (acc @ append_step prev f)
         (calls @ [submitted audio k]) = (calls', Inr t)"
      by (simp add: transcribe_loop_step)
    have d: "d = window_count (length audio) - Suc k" using Suc.hyps(2) by simp
    have len: "length (calls @ [submitted audio k]) = Suc k" using Suc.prems by simp
    have f: "fragment_text rec audio k = f" using Inr by (simp add: fragment_text_def)
    from Suc.hyps(1) [OF d len rest]
    have ih: "t = (acc @ append_step prev f)
                  @ stitch_from f (map (fragment_text rec audio) [Suc k ..< window_count (length audio)])"
      and all: "\<forall>i. Suc k \<le> i \<and> i < window_count (length audio) \<longrightarrow>
                  fragment rec audio i = Inr (fragment_text rec audio i)"
      by simp_all
    have "fragment rec audio i = Inr (fragment_text rec audio i)"
      if "k \<le> i" "i < window_count (length audio)" for i
    proof (cases "i = k")
      case True
      then show ?thesis using Inr f by simp
    next
      case False
      then show ?thesis using that all by simp
    qed
    then show ?thesis using ih lt f by (simp add: upt_conv_Cons)
  qed
qed

lemma stitch_from_pairs:
  "stitch_from p fs = concat (map (\<lambda>(a, b). append_step a b) (zip (p # fs) fs))"
  by (induction fs arbitrary: p) simp_all

lemma spec_windows_eq: "spec_windows len = map (window len) [0 ..< window_count len]"
  by (simp add: spec_windows_def window_def window_count_def chunk_duration_def
                overlap_duration_def fun_eq_iff)

lemma slice_nth:
  assumes "e \<le> length xs"
  shows "slice xs s e = map (\<lambda>i. xs ! i) [s ..< e]"
  unfolding slice_def
proof (rule nth_equalityI)
  show len: "length (take (e - s) (drop s xs)) = length (map (\<lambda>i. xs ! i) [s ..< e])"
    using assms by auto
  fix i
  assume "i < length (take (e - s) (drop s xs))"
  then have "i < e - s" using len by simp
  then show "take (e - s) (drop s xs) ! i = map (\<lambda>i. xs ! i) [s ..< e] ! i"
    using assms by simp
qed

lemma window_end_le: "snd (window len k) \<le> len"
  by (simp add: window_def)

lemma spec_calls_eq:
  "spec_calls audio = map (submitted audio) [0 ..< window_count (length audio)]"
proof -
  have "(case window (length audio) k of (s, e) \<Rightarrow> (s, e, map (\<lambda>i. audio ! i) [s ..< e]))
          = submitted audio k" for k
  proof (cases "window (length audio) k")
    case (Pair s e)
    with window_end_le [of "length audio" k] have "e \<le> length audio" by simp
    then show ?thesis using Pair by (simp add: submitted_def slice_nth)
  qed
  then show ?thesis by (simp add: spec_calls_def spec_windows_eq comp_def)
qed

lemma spec_calls_prefix:
  assumes "j \<le> window_count (length audio)"
  shows "map (submitted audio) [0 ..< j] = take j (spec_calls audio)"
  using assms by (simp add: spec_calls_eq take_map)

lemma ex_two:
  "transcribe_audio_with_overlap example_recognize example_read_file ''two.wav''
     = ([(0, 176000, replicate 176000 0), (160000, 320000, replicate 160000 0)], Inr ''aa'')"
  by (simp add: transcribe_audio_with_overlap_def example_read_file_def example_recognize_def
        transcribe_loop.simps chunk_duration_def overlap_duration_def Let_def strip_def
        is_space_def merge_with_overlap_def split_def slice_def)

lemma ex_three:
  "transcribe_audio_with_overlap example_recognize example_read_file ''three.wav''
     = ([(0, 176000, replicate 176000 0), (160000, 320001, replicate 160001 0),
         (320000, 320001, replicate 1 0)], Inr ''aa b'')"
  by (simp add: transcribe_audio_with_overlap_def example_read_file_def example_recognize_def
        transcribe_loop.simps chunk_duration_def overlap_duration_def Let_def strip_def
        is_space_def merge_with_overlap_def split_def slice_def)

lemma ex_three_fragments:
  "fragment example_recognize (replicate 320001 0) 0 = Inr ''a''"
  "fragment example_recognize (replicate 320001 0) (Suc 0) = Inr []"
  "fragment example_recognize (replicate 320001 0) 2 = Inr ''b''"
  by (simp_all add: fragment_def example_recognize_def)

lemma window_count_three: "window_count 320001 = 3"
  by (simp add: window_count_def chunk_duration_def)

lemma transcribe_loop_last_pass:
  assumes "length calls = k" and "Suc k = window_count (length audio)"
  shows "fst (transcribe_loop rec audio (k * chunk_duration) prev acc calls)
           = calls @ [submitted audio k]"
proof (cases "fragment rec audio k")
  case (Inl e)
  with assms show ?thesis by (simp add: transcribe_loop_step)
next
  case (Inr f)
  have "transcribe_loop rec audio (Suc k * chunk_duration) f (acc @ append_step prev f)
          (calls @ [submitted audio k]) = (calls @ [submitted audio k], Inr (acc @ append_step prev f))"
    using assms by (subst transcribe_loop_step [of _ "Suc k"]) simp_all
  with Inr assms show ?thesis by (simp add: transcribe_loop_step)
qed

text \<open>
  C3 (amended). The calls to the recognizer are made in order on the windows
  \<open>[cursor, min(cursor + 160000 + 16000, length))\<close>, the cursor advancing by \<open>160000\<close>,
  and each call submits exactly the bytes of the buffer in its window. The run ends at the
  first call that raises: the calls made are an initial part of that list, not empty
  when the buffer is not, and all of it when the pipeline returns. A buffer of \<open>160000\<close>
  bytes causes exactly one call, with the whole buffer. A buffer of \<open>320000\<close> bytes
  causes exactly two calls, the second on the window that starts at byte \<open>160000\<close>, when
  the first call gives a response with an alternative for every result, and exactly one
  call otherwise.
\<close>

theorem pipeline_windows:
  assumes "rf wav_path = Some audio"
    and "transcribe_audio_with_overlap rec rf wav_path = (calls, res)"
  shows "calls = take (length calls) (spec_calls audio)
         \<and> ((\<exists>t. res = Inr t) \<longrightarrow> calls = spec_calls audio)
         \<and> (audio \<noteq> [] \<longrightarrow> calls \<noteq> [])
         \<and> (length audio = 160000 \<longrightarrow> calls = [(0, 160000, audio)])
         \<and> (length audio = 2 * 160000 \<longrightarrow>
              calls = (if \<exists>response ts. rec 0 (take (160000 + 16000) audio) = Inr response
                                       \<and> first_alternatives response = Inr ts
                       then [(0, 160000 + 16000, take (160000 + 16000) audio),
                             (160000, 2 * 160000, drop 160000 audio)]
                       else [(0, 160000 + 16000, take (160000 + 16000) audio)]))"
proof -
  obtain r where loop: "transcribe_loop rec audio 0 [] [] [] = (calls, r)"
    and r: "(\<exists>t. res = Inr t) \<longleftrightarrow> (\<exists>t. r = Inr t)"
    using assms
    by (cases "transcribe_loop rec audio 0 [] [] []")
       (auto simp: transcribe_audio_with_overlap_def split: sum.splits)
  let ?m = "window_count (length audio)"
  from transcribe_loop_calls [of "[]" 0 rec audio "[]" "[]" calls r] loop
  obtain j where j: "calls = map (submitted audio) [0 ..< j]" "j \<le> ?m"
    "\<forall>t. r = Inr t \<longrightarrow> j = ?m" "0 < ?m \<longrightarrow> 0 < j"
    by auto
  have len: "length calls = j" using j(1) by simp
  have pre: "calls = take (length calls) (spec_calls audio)"
    using j(1,2) len spec_calls_prefix by simp
  have full: "calls = spec_calls audio" if "\<exists>t. res = Inr t"
    using that r j(1,3) by (auto simp: spec_calls_eq)
  have some: "calls \<noteq> []" if "audio \<noteq> []"
  proof -
    from that have "0 * chunk_duration < length audio" by simp
    then have "0 < ?m" by (simp only: window_count_iff)
    with j(4) have "0 < j" by simp
    with len show ?thesis by auto
  qed
  have calls: "calls = fst (transcribe_loop rec audio (0 * chunk_duration) [] [] [])"
    using loop by simp
  have step0: "transcribe_loop rec audio 0 [] [] [] =
     (if 0 < ?m then
        (case fragment rec audio 0 of
           Inl e \<Rightarrow> ([] @ [submitted audio 0], Inl e)
         | Inr f \<Rightarrow> transcribe_loop rec audio (Suc 0 * chunk_duration) f
                      ([] @ append_step [] f) ([] @ [submitted audio 0]))
      else ([], Inr []))"
    using transcribe_loop_step [of "[]" 0 rec audio "[]" "[]"] by simp
  have one: "calls = [(0, 160000, audio)]" if "length audio = 160000"
  proof -
    have "Suc 0 = ?m" using that by (simp add: window_count_def chunk_duration_def)
    then have "calls = [] @ [submitted audio 0]"
      unfolding calls by (intro transcribe_loop_last_pass) simp_all
    then show ?thesis using that
      by (simp add: submitted_def window_def slice_def chunk_duration_def overlap_duration_def)
  qed
  have two: "calls = (if \<exists>response ts. rec 0 (take (160000 + 16000) audio) = Inr response
                                       \<and> first_alternatives response = Inr ts
                       then [(0, 160000 + 16000, take (160000 + 16000) audio),
                             (160000, 2 * 160000, drop 160000 audio)]
                       else [(0, 160000 + 16000, take (160000 + 16000) audio)])"
    if l: "length audio = 2 * 160000"
  proof -
    have m: "?m = Suc (Suc 0)" using l by (simp add: window_count_def chunk_duration_def)
    have s0: "submitted audio 0 = (0, 160000 + 16000, take (160000 + 16000) audio)"
      using l by (simp add: submitted_def window_def slice_def chunk_duration_def overlap_duration_def)
    have s1: "submitted audio (Suc 0) = (160000, 2 * 160000, drop 160000 audio)"
      using l by (simp add: submitted_def window_def slice_def chunk_duration_def overlap_duration_def)
    have fr: "fragment rec audio 0
        = (case rec 0 (take (160000 + 16000) audio) of
             Inl e \<Rightarrow> Inl e
           | Inr response \<Rightarrow>
               (case first_alternatives response of Inl e \<Rightarrow> Inl e | Inr ts \<Rightarrow> Inr (join ts)))"
      using l by (simp add: fragment_def window_def slice_def chunk_duration_def overlap_duration_def)
    show ?thesis
    proof (cases "fragment rec audio 0")
      case (Inl e)
      then have "\<not> (\<exists>response ts. rec 0 (take (160000 + 16000) audio) = Inr response
                                       \<and> first_alternatives response = Inr ts)"
        unfolding fr by (auto split: sum.splits)
      moreover have "calls = [submitted audio 0]"
        using loop Inl m by (simp add: step0)
      ultimately show ?thesis using s0 by simp
    next
      case (Inr f)
      then have "\<exists>response ts. rec 0 (take (160000 + 16000) audio) = Inr response
                                       \<and> first_alternatives response = Inr ts"
        unfolding fr by (auto split: sum.splits)
      moreover have "fst (transcribe_loop rec audio (Suc 0 * chunk_duration) f
                            ([] @ append_step [] f) ([] @ [submitted audio 0]))
                       = ([] @ [submitted audio 0]) @ [submitted audio (Suc 0)]"
        by (rule transcribe_loop_last_pass) (simp_all add: m)
      then have "calls = [submitted audio 0, submitted audio (Suc 0)]"
        using loop Inr m by (simp add: step0)
      ultimately show ?thesis using s0 s1 by simp
    qed
  qed
  from pre full some one two show ?thesis by blast
qed

theorem pipeline_windows_witness:
  "transcribe_audio_with_overlap example_recognize example_read_file ''two.wav''
       = ([(0, 176000, replicate 176000 0), (160000, 320000, replicate 160000 0)], Inr ''aa'')
   \<and> spec_calls (replicate 320000 0)
       = [(0, 176000, replicate 176000 0), (160000, 320000, replicate 160000 0)]
   \<and> fst (transcribe_audio_with_overlap failing_recognize example_read_file ''one.wav'')
       = [(0, 160000, replicate 160000 0)]"
proof -
  have f: "example_read_file ''two.wav'' = Some (replicate 320000 0)"
    by (simp add: example_read_file_def)
  note run = ex_two
  from pipeline_windows [where rf = example_read_file and wav_path = "''two.wav''"
         and audio = "replicate 320000 0" and rec = example_recognize, OF f run]
  have 1: "[(0, 176000, replicate 176000 0), (160000, 320000, replicate 160000 0)]
             = spec_calls (replicate 320000 0)"
    by blast
  have f1: "example_read_file ''one.wav'' = Some (replicate 160000 0)"
    by (simp add: example_read_file_def)
  have "transcribe_audio_with_overlap failing_recognize example_read_file ''one.wav''
          = (fst (transcribe_audio_with_overlap failing_recognize example_read_file ''one.wav''),
             snd (transcribe_audio_with_overlap failing_recognize example_read_file ''one.wav''))"
    by simp
  from pipeline_windows [where rf = example_read_file and wav_path = "''one.wav''"
         and audio = "replicate 160000 0" and rec = failing_recognize, OF f1 this]
  have 2: "fst (transcribe_audio_with_overlap failing_recognize example_read_file ''one.wav'')
             = [(0, 160000, replicate 160000 0)]"
    by simp
  from 1 2 run show ?thesis by simp
qed

text \<open>
  C3 as stated fails for a buffer of \<open>320000\<close> bytes when the first call raises: that
  call is the only one.
\<close>

theorem two_windows_counterexample:
  "example_read_file ''two.wav'' = Some (replicate (2 * 160000) 0)
   \<and> transcribe_audio_with_overlap failing_recognize example_read_file ''two.wav''
       = ([(0, 176000, replicate 176000 0)], Inl (RuntimeError (ExternalError ''unreachable'')))"
  by (simp add: transcribe_audio_with_overlap_def example_read_file_def failing_recognize_def
        transcribe_loop.simps chunk_duration_def overlap_duration_def Let_def slice_def)

text \<open>
  C4 (amended). When the pipeline returns, the transcript is the trimmed value of: the
  first raw fragment, followed for each later window by \<open>merge(f(i-1), f(i))\<close> when the
  preceding raw fragment \<open>f(i-1)\<close> is non-empty and by \<open>f(i)\<close> itself when it is empty.
  The left argument of the merge is the raw fragment of the preceding window.
\<close>

theorem pipeline_transcript:
  assumes "rf wav_path = Some audio"
    and "transcribe_audio_with_overlap rec rf wav_path = (calls, Inr t)"
  shows "(\<forall>i < window_count (length audio).
            fragment rec audio i = Inr (fragment_text rec audio i))
         \<and> t = strip (case map (fragment_text rec audio) [0 ..< window_count (length audio)] of
                        [] \<Rightarrow> []
                      | f # rest \<Rightarrow>
                          f @ concat (map (\<lambda>(a, b). if a \<noteq> [] then merge_with_overlap a b else b)
                                        (zip (f # rest) rest)))"
proof -
  let ?m = "window_count (length audio)"
  let ?fs = "map (fragment_text rec audio) [0 ..< ?m]"
  from assms obtain acc where loop: "transcribe_loop rec audio 0 [] [] [] = (calls, Inr acc)"
    and t: "t = strip acc"
    by (cases "transcribe_loop rec audio 0 [] [] []")
       (auto simp: transcribe_audio_with_overlap_def split: sum.splits)
  from transcribe_loop_transcript [of "[]" 0 rec audio "[]" "[]" calls acc] loop
  have acc: "acc = stitch_from [] ?fs"
    and ok: "\<forall>i. i < ?m \<longrightarrow> fragment rec audio i = Inr (fragment_text rec audio i)"
    by simp_all
  have step: "(\<lambda>(a, b). append_step a b) = (\<lambda>(a, b). if a \<noteq> [] then merge_with_overlap a b else b)"
    by (simp add: fun_eq_iff append_step_def)
  have "stitch_from [] fs = (case fs of [] \<Rightarrow> [] | f # rest \<Rightarrow>
          f @ concat (map (\<lambda>(a, b). if a \<noteq> [] then merge_with_overlap a b else b)
                        (zip (f # rest) rest)))"
    for fs
  proof (cases fs)
    case Nil
    then show ?thesis by simp
  next
    case (Cons f rest)
    have "stitch_from [] (f # rest) = f @ stitch_from f rest" by (simp add: append_step_def)
    also have "stitch_from f rest
        = concat (map (\<lambda>(a, b). if a \<noteq> [] then merge_with_overlap a b else b) (zip (f # rest) rest))"
      by (simp only: stitch_from_pairs step)
    finally show ?thesis using Cons by simp
  qed
  with acc t ok show ?thesis by simp
qed

theorem pipeline_transcript_witness:
  "example_read_file ''three.wav'' = Some (replicate 320001 0)
   \<and> transcribe_audio_with_overlap example_recognize example_read_file ''three.wav''
       = ([(0, 176000, replicate 176000 0), (160000, 320001, replicate 160001 0),
           (320000, 320001, replicate 1 0)], Inr ''aa b'')
   \<and> ''aa b'' = strip (''a'' @ merge_with_overlap ''a'' [] @ ''b'')"
proof -
  have f: "example_read_file ''three.wav'' = Some (replicate 320001 0)"
    by (simp add: example_read_file_def)
  note run = ex_three
  have fs: "map (fragment_text example_recognize (replicate 320001 0)) [0 ..< 3] = [''a'', [], ''b'']"
  proof -
    have l: "[0 ..< 3] = [0, 1, 2::nat]" by (simp add: upt_rec)
    show ?thesis unfolding l by (simp add: fragment_text_def ex_three_fragments)
  qed
  from pipeline_transcript [where rf = example_read_file and wav_path = "''three.wav''"
         and audio = "replicate 320001 0" and rec = example_recognize, OF f run]
  have "''aa b'' = strip (case map (fragment_text example_recognize (replicate 320001 0))
                                 [0 ..< window_count (length (replicate 320001 (0::byte)))] of
                        [] \<Rightarrow> []
                      | f # rest \<Rightarrow>
                          f @ concat (map (\<lambda>(a, b). if a \<noteq> [] then merge_with_overlap a b else b)
                                        (zip (f # rest) rest)))"
    by blast
  then have "''aa b'' = strip (''a'' @ merge_with_overlap ''a'' [] @ ''b'')"
    by (simp only: length_replicate window_count_three fs list.case list.map zip_Cons_Cons zip_Nil
          zip.simps prod.case concat.simps append_Nil2 if_True if_False not_Cons_self2 simp_thms)
  then show ?thesis using f run by simp
qed

text \<open>
  C4 as stated fails when a fragment other than the last is empty: for the fragments
  \<open>a\<close>, empty, \<open>b\<close> the pipeline returns \<open>aa b\<close>, while the first fragment followed by
  the merge of every adjacent pair is \<open>aa  b\<close>, with two spaces.
\<close>

theorem pipeline_transcript_counterexample:
  "transcribe_audio_with_overlap example_recognize example_read_file ''three.wav''
       = ([(0, 176000, replicate 176000 0), (160000, 320001, replicate 160001 0),
           (320000, 320001, replicate 1 0)], Inr ''aa b'')
   \<and> map (fragment example_recognize (replicate 320001 0)) [0 ..< 3]
       = [Inr ''a'', Inr [], Inr ''b'']
   \<and> spec_transcript [''a'', [], ''b''] = ''aa  b''
   \<and> spec_transcript [''a'', [], ''b''] \<noteq> ''aa b''"
proof -
  have "[0 ..< 3] = [0, 1, 2::nat]" by (simp add: upt_rec)
  moreover have "spec_transcript [''a'', [], ''b''] = ''aa  b''"
    by (simp add: spec_transcript_def merge_with_overlap_def split_def strip_def is_space_def)
  ultimately show ?thesis using ex_three ex_three_fragments by simp
qed

text \<open>
  C1 (amended). On an empty audio buffer the pipeline makes no call and returns the
  empty transcript. On a buffer with at least one window it fails with a
  \<open>RuntimeError\<close> whenever the recognition of some window raises, and with the call for
  the first window as its only call when every call to the recognizer raises.
\<close>

theorem pipeline_failure:
  assumes "rf wav_path = Some audio"
  shows "(audio = [] \<longrightarrow> transcribe_audio_with_overlap rec rf wav_path = ([], Inr []))
       \<and> (\<forall>i e. i < window_count (length audio) \<and> fragment rec audio i = Inl e \<longrightarrow>
            (\<exists>e'. snd (transcribe_audio_with_overlap rec rf wav_path) = Inl (RuntimeError e')))
       \<and> (audio \<noteq> [] \<and> (\<forall>k chunk. \<exists>e. rec k chunk = Inl e) \<longrightarrow>
            (\<exists>e. transcribe_audio_with_overlap rec rf wav_path
                    = ([submitted audio 0], Inl (RuntimeError e))))"
proof (intro conjI impI allI)
  assume empty: "audio = []"
  have "transcribe_loop rec [] 0 [] [] [] = ([], Inr [])"
    by (subst transcribe_loop.simps) simp
  then show "transcribe_audio_with_overlap rec rf wav_path = ([], Inr [])"
    using assms empty by (simp add: transcribe_audio_with_overlap_def strip_def)
next
  fix i e
  assume "i < window_count (length audio) \<and> fragment rec audio i = Inl e"
  then have i: "i < window_count (length audio)" and f: "fragment rec audio i = Inl e"
    by simp_all
  have "\<exists>e'. snd (transcribe_loop rec audio (0 * chunk_duration) [] [] []) = Inl e'"
    by (rule transcribe_loop_fails [OF _ _ i f]) simp_all
  then obtain e' where e': "snd (transcribe_loop rec audio 0 [] [] []) = Inl e'" by auto
  obtain cs where "transcribe_loop rec audio 0 [] [] [] = (cs, Inl e')"
    using e' by (cases "transcribe_loop rec audio 0 [] [] []") simp
  then have "snd (transcribe_audio_with_overlap rec rf wav_path) = Inl (RuntimeError e')"
    using assms by (simp add: transcribe_audio_with_overlap_def)
  then show "\<exists>e'. snd (transcribe_audio_with_overlap rec rf wav_path) = Inl (RuntimeError e')"
    by blast
next
  assume a: "audio \<noteq> [] \<and> (\<forall>k chunk. \<exists>e. rec k chunk = Inl e)"
  then have "0 * chunk_duration < length audio" by simp
  then have m: "0 < window_count (length audio)" by (simp only: window_count_iff)
  from a obtain e where
    "rec 0 (slice audio (fst (window (length audio) 0)) (snd (window (length audio) 0))) = Inl e"
    by blast
  then have f: "fragment rec audio 0 = Inl e" by (simp add: fragment_def)
  have "transcribe_loop rec audio (0 * chunk_duration) [] [] []
          = ([] @ [submitted audio 0], Inl e)"
    by (subst transcribe_loop_step [of "[]" 0]) (simp_all add: m f)
  then have "transcribe_audio_with_overlap rec rf wav_path
               = ([submitted audio 0], Inl (RuntimeError e))"
    using assms by (simp add: transcribe_audio_with_overlap_def)
  then show "\<exists>e. transcribe_audio_with_overlap rec rf wav_path
                    = ([submitted audio 0], Inl (RuntimeError e))"
    by blast
qed

theorem pipeline_failure_witness:
  "transcribe_audio_with_overlap failing_recognize example_read_file ''empty.wav'' = ([], Inr [])
   \<and> transcribe_audio_with_overlap failing_recognize example_read_file ''one.wav''
       = ([(0, 160000, replicate 160000 0)], Inl (RuntimeError (ExternalError ''unreachable'')))"
proof -
  have f0: "example_read_file ''empty.wav'' = Some []" by (simp add: example_read_file_def)
  have f1: "example_read_file ''one.wav'' = Some (replicate 160000 0)"
    by (simp add: example_read_file_def)
  have fail: "\<forall>k chunk. \<exists>e. failing_recognize k chunk = Inl e"
    by (simp add: failing_recognize_def)
  from pipeline_failure [where rf = example_read_file and wav_path = "''empty.wav''"
         and audio = "[]" and rec = failing_recognize] f0
  have a: "transcribe_audio_with_overlap failing_recognize example_read_file ''empty.wav'' = ([], Inr [])"
    by simp
  have ne: "replicate 160000 (0::byte) \<noteq> []" by simp
  from pipeline_failure [where rf = example_read_file and wav_path = "''one.wav''"
         and audio = "replicate 160000 0" and rec = failing_recognize] f1 fail ne
  obtain e where "transcribe_audio_with_overlap failing_recognize example_read_file ''one.wav''
        = ([submitted (replicate 160000 (0::byte)) 0], Inl (RuntimeError e))"
    by blast
  moreover have "snd (transcribe_audio_with_overlap failing_recognize example_read_file ''one.wav'')
      = Inl (RuntimeError (ExternalError ''unreachable''))"
    by (simp add: transcribe_audio_with_overlap_def example_read_file_def failing_recognize_def
          transcribe_loop.simps Let_def)
  ultimately have "transcribe_audio_with_overlap failing_recognize example_read_file ''one.wav''
       = ([(0, 160000, replicate 160000 0)], Inl (RuntimeError (ExternalError ''unreachable'')))"
    by (simp add: submitted_def window_def slice_def chunk_duration_def overlap_duration_def)
  with a show ?thesis by simp
qed

text \<open>
  C1 as stated fails on the empty buffer: the pipeline returns the empty transcript, even
  with a recognizer that always raises.
\<close>

theorem empty_buffer_counterexample:
  "example_read_file ''empty.wav'' = Some []
   \<and> transcribe_audio_with_overlap failing_recognize example_read_file ''empty.wav'' = ([], Inr [])"
  by (simp add: transcribe_audio_with_overlap_def example_read_file_def transcribe_loop.simps
        strip_def)

section \<open>Properties of the connection handler\<close>

lemmas example_defs =
  example_env_def example_validate_def example_world_def running_world_def example_message_def
  coding_crash_message_def audio_missing_message_def str_field_def dict_get_def
  example_read_file_def example_recognize_def new_InterviewState_def new_InterviewBot_def

lemmas handler_defs =
  loop_iteration_def try_body_def handle_event_def handle_upload_cv_def handle_analyze_jd_def
  handle_start_interview_def handle_answer_def handle_coding_def handle_end_interview_def
  handle_get_analysis_def handle_summary_analysis_def handle_test_coding_question_def
  handle_audio_transcription_def response_result_def send_json_def set_bot_def

lemma websocket_loop_returned:
  "loop_iteration env frames w = (Returned, w', frames') \<Longrightarrow>
   websocket_loop env frames w = websocket_loop env frames' w'"
  by (subst websocket_loop.simps) simp

lemma websocket_loop_raised:
  "loop_iteration env frames w = (Raised e, w', frames') \<Longrightarrow>
   websocket_loop env frames w = (Unwound e, w')"
  by (subst websocket_loop.simps) simp

lemma websocket_loop_blocked:
  "loop_iteration env frames w = (Blocked, w', frames') \<Longrightarrow>
   websocket_loop env frames w = (Awaiting, w')"
  by (subst websocket_loop.simps) simp

lemma loop_iteration_event:
  assumes "validate env data = Inr event"
    and "handle_event env event w frames = (Returned, w', frames')"
  shows "loop_iteration env (Message data # frames) w = (Returned, w', frames')"
  using assms by (simp add: loop_iteration_def try_body_def)

lemma loop_iteration_raised:
  assumes "validate env data = Inr event"
    and "handle_event env event w frames = (Raised e, w', frames')"
    and "\<forall>m. e \<noteq> ValidationError m"
  shows "websocket_loop env (Message data # frames) w = (Unwound e, w')"
proof -
  from assms have "loop_iteration env (Message data # frames) w = (Raised e, w', frames')"
    by (cases e) (simp_all add: loop_iteration_def try_body_def)
  then show ?thesis by (rule websocket_loop_raised)
qed

lemma set_bot_None [simp]: "set_bot None (set_bot b w) = set_bot None w"
  by (simp add: set_bot_def)

lemma ex_empty:
  "transcribe_audio_with_overlap example_recognize example_read_file ''empty.wav'' = ([], Inr [])"
  by (simp add: transcribe_audio_with_overlap_def example_read_file_def transcribe_loop.simps
        strip_def)

text \<open>
  C2 (amended). A message that fails validation produces an \<open>error\<close> reply and the loop
  goes on with the next message. An error raised while a \<open>coding\<close> message is evaluated
  or an \<open>audio\<close> message is transcribed is caught in the handler and sent as a
  \<open>coding_error\<close> or \<open>transcription_error\<close> reply, and the loop goes on. Every other
  exception that leaves the body of the inner \<open>try\<close> and is not a \<open>ValidationError\<close>
  leaves the loop with no reply: an error of the collaborator while \<open>upload_cv\<close>,
  \<open>analyze_jd\<close>, \<open>get_analysis\<close> or \<open>get_summary_analysis\<close> is handled, the
  \<open>AttributeError\<close> of \<open>end_interview\<close> when the interview task has released the handle
  during the sleep, or an exception of receiving or validating. When the loop is left, the
  endpoint ends after its \<open>finally\<close> block, which sets the stop signal of a handle that is
  still there and releases it.
\<close>

theorem message_errors:
  "(validate env data = Inl (ValidationError m) \<longrightarrow>
      websocket_loop env (Message data # frames) w
        = websocket_loop env frames (send_json (Error_msg m) w))
   \<and> (validate env data = Inr event \<and> ev_type event = ''coding''
        \<and> interview_bot (state w) \<noteq> None
        \<and> evaluate_code env (ques event) (code event) = Inl e \<longrightarrow>
      websocket_loop env (Message data # frames) w
        = websocket_loop env frames (send_json (Coding_error e) w))
   \<and> (validate env data = Inr event \<and> ev_type event = ''audio''
        \<and> audio_data event = Some path \<and> path \<noteq> []
        \<and> snd (transcribe_audio_with_overlap (recognize env) (read_file env) path) = Inl e \<longrightarrow>
      websocket_loop env (Message data # frames) w
        = websocket_loop env frames (send_json (Transcription_error e) w))
   \<and> (try_body env frames w = (Raised e, w', frames') \<and> (\<forall>m. e \<noteq> ValidationError m) \<longrightarrow>
      websocket_loop env frames w = (Unwound e, w'))
   \<and> (validate env data = Inr event \<and> (\<forall>m. e \<noteq> ValidationError m)
        \<and> (ev_type event = ''upload_cv'' \<and> get_cv env data' = Inl e
           \<or> ev_type event = ''analyze_jd'' \<and> get_job_description env data' = Inl e) \<longrightarrow>
      websocket_loop env (Message data # Message data' # frames) w = (Unwound e, w))
   \<and> (validate env data = Inr event \<and> (\<forall>m. e \<noteq> ValidationError m)
        \<and> (ev_type event = ''get_analysis'' \<and> analyze_results env (results (state w)) = Inl e
           \<or> ev_type event = ''get_summary_analysis''
               \<and> summary_results env (results (state w)) = Inl e) \<longrightarrow>
      websocket_loop env (Message data # frames) w = (Unwound e, w))
   \<and> (validate env data = Inr event \<and> ev_type event = ''end_interview''
        \<and> interview_bot (state w) = Some ibot
        \<and> interview_task_ends env (set_bot (Some (ibot\<lparr>stop_interview := True\<rparr>)) w) \<longrightarrow>
      websocket_loop env (Message data # frames) w = (Unwound AttributeError, set_bot None w))
   \<and> (websocket_loop env frames
          \<lparr>state = new_InterviewState, sent = [], tasks = 0, dropped = []\<rparr> = (Unwound e, w) \<longrightarrow>
      websocket_endpoint env frames = (Unwound e, finally_block w)
      \<and> interview_bot (state (finally_block w)) = None
      \<and> sent (finally_block w) = sent w
      \<and> (\<forall>ibot. interview_bot (state w) = Some ibot \<longrightarrow>
            dropped (finally_block w) = dropped w @ [ibot\<lparr>stop_interview := True\<rparr>]))"
proof (intro conjI impI)
  assume "validate env data = Inl (ValidationError m)"
  then have "loop_iteration env (Message data # frames) w
               = (Returned, send_json (Error_msg m) w, frames)"
    by (simp add: loop_iteration_def try_body_def)
  then show "websocket_loop env (Message data # frames) w
        = websocket_loop env frames (send_json (Error_msg m) w)"
    by (rule websocket_loop_returned)
next
  assume a: "validate env data = Inr event \<and> ev_type event = ''coding''
        \<and> interview_bot (state w) \<noteq> None
        \<and> evaluate_code env (ques event) (code event) = Inl e"
  then have "handle_coding env event w = send_json (Coding_error e) w"
    by (auto simp: handle_coding_def)
  with a have "handle_event env event w frames = (Returned, send_json (Coding_error e) w, frames)"
    by (simp add: handle_event_def)
  with a show "websocket_loop env (Message data # frames) w
        = websocket_loop env frames (send_json (Coding_error e) w)"
    by (intro websocket_loop_returned loop_iteration_event) simp_all
next
  assume a: "validate env data = Inr event \<and> ev_type event = ''audio''
        \<and> audio_data event = Some path \<and> path \<noteq> []
        \<and> snd (transcribe_audio_with_overlap (recognize env) (read_file env) path) = Inl e"
  then have "handle_audio_transcription env event w = send_json (Transcription_error e) w"
    by (simp add: handle_audio_transcription_def)
  with a have "handle_event env event w frames
                 = (Returned, send_json (Transcription_error e) w, frames)"
    by (simp add: handle_event_def)
  with a show "websocket_loop env (Message data # frames) w
        = websocket_loop env frames (send_json (Transcription_error e) w)"
    by (intro websocket_loop_returned loop_iteration_event) simp_all
next
  assume a: "try_body env frames w = (Raised e, w', frames') \<and> (\<forall>m. e \<noteq> ValidationError m)"
  then have "loop_iteration env frames w = (Raised e, w', frames')"
    by (cases e) (simp_all add: loop_iteration_def)
  then show "websocket_loop env frames w = (Unwound e, w')"
    by (rule websocket_loop_raised)
next
  assume a: "validate env data = Inr event \<and> (\<forall>m. e \<noteq> ValidationError m)
        \<and> (ev_type event = ''upload_cv'' \<and> get_cv env data' = Inl e
           \<or> ev_type event = ''analyze_jd'' \<and> get_job_description env data' = Inl e)"
  then have "handle_event env event w (Message data' # frames) = (Raised e, w, frames)"
    by (auto simp: handle_event_def handle_upload_cv_def handle_analyze_jd_def)
  with a show "websocket_loop env (Message data # Message data' # frames) w = (Unwound e, w)"
    by (intro loop_iteration_raised) simp_all
next
  assume a: "validate env data = Inr event \<and> (\<forall>m. e \<noteq> ValidationError m)
        \<and> (ev_type event = ''get_analysis'' \<and> analyze_results env (results (state w)) = Inl e
           \<or> ev_type event = ''get_summary_analysis''
               \<and> summary_results env (results (state w)) = Inl e)"
  then have "handle_event env event w frames = (Raised e, w, frames)"
    by (auto simp: handle_event_def handle_get_analysis_def handle_summary_analysis_def)
  with a show "websocket_loop env (Message data # frames) w = (Unwound e, w)"
    by (intro loop_iteration_raised) simp_all
next
  assume a: "validate env data = Inr event \<and> ev_type event = ''end_interview''
        \<and> interview_bot (state w) = Some ibot
        \<and> interview_task_ends env (set_bot (Some (ibot\<lparr>stop_interview := True\<rparr>)) w)"
  then have "handle_end_interview env w = (Raised AttributeError, set_bot None w)"
    by (simp add: handle_end_interview_def Let_def)
  with a have "handle_event env event w frames = (Raised AttributeError, set_bot None w, frames)"
    by (simp add: handle_event_def)
  with a show "websocket_loop env (Message data # frames) w
                 = (Unwound AttributeError, set_bot None w)"
    by (intro loop_iteration_raised) simp_all
next
  assume "websocket_loop env frames
          \<lparr>state = new_InterviewState, sent = [], tasks = 0, dropped = []\<rparr> = (Unwound e, w)"
  then show "websocket_endpoint env frames = (Unwound e, finally_block w)"
    by (simp add: websocket_endpoint_def)
next
  show "interview_bot (state (finally_block w)) = None"
    by (simp add: finally_block_def set_bot_def split: option.splits)
next
  show "sent (finally_block w) = sent w"
    by (simp add: finally_block_def set_bot_def split: option.splits)
next
  show "\<forall>ibot. interview_bot (state w) = Some ibot \<longrightarrow>
            dropped (finally_block w) = dropped w @ [ibot\<lparr>stop_interview := True\<rparr>]"
    by (simp add: finally_block_def set_bot_def)
qed

theorem message_errors_witness:
  "websocket_loop example_env
      [Message (JDict []), Message (example_message ''test_coding_question'')] example_world
     = (Awaiting, example_world\<lparr>sent := [Error_msg ''type: field required'',
                                           Test_coding_question ''Q1. Print Hello World'']\<rparr>)
   \<and> websocket_loop example_env [Message coding_crash_message] running_world
     = (Awaiting, send_json (Coding_error (ExternalError ''evaluator down'')) running_world)
   \<and> websocket_loop example_env [Message audio_missing_message] example_world
     = (Awaiting, send_json (Transcription_error (RuntimeError OSError)) example_world)
   \<and> websocket_loop example_env
      [Message (example_message ''get_analysis''), Message (example_message ''test_coding_question'')]
      example_world
     = (Unwound (ExternalError ''analysis failed''), example_world)
   \<and> websocket_loop stopping_env
      [Message (example_message ''end_interview''), Message (example_message ''test_coding_question'')]
      running_world
     = (Unwound AttributeError, example_world)
   \<and> websocket_endpoint example_env
      [Message (example_message ''start_interview''), Message (example_message ''get_analysis'')]
     = (Unwound (ExternalError ''analysis failed''),
        \<lparr>state = new_InterviewState, sent = [Interview_started], tasks = 1,
         dropped = [new_InterviewBot\<lparr>stop_interview := True\<rparr>]\<rparr>)"
proof -
  let ?tq = "Message (example_message ''test_coding_question'')"
  have v: "validate example_env (JDict []) = Inl (ValidationError ''type: field required'')"
    by (simp add: example_defs)
  from message_errors [where env = example_env and data = "JDict []"
      and m = "''type: field required''" and frames = "[?tq]" and w = example_world] v
  have "websocket_loop example_env [Message (JDict []), ?tq] example_world
      = websocket_loop example_env [?tq] (send_json (Error_msg ''type: field required'') example_world)"
    by blast
  also have "\<dots> = (Awaiting, example_world\<lparr>sent := [Error_msg ''type: field required'',
                                           Test_coding_question ''Q1. Print Hello World'']\<rparr>)"
    by (simp add: websocket_loop.simps example_defs handler_defs)
  finally have 1: "websocket_loop example_env [Message (JDict []), ?tq] example_world
      = (Awaiting, example_world\<lparr>sent := [Error_msg ''type: field required'',
                                           Test_coding_question ''Q1. Print Hello World'']\<rparr>)" .
  let ?ce = "\<lparr>ev_type = ''coding'', code = None, ques = Some ''crash'', audio_data = None\<rparr>"
  have c: "validate example_env coding_crash_message = Inr ?ce \<and> ev_type ?ce = ''coding''
      \<and> interview_bot (state running_world) \<noteq> None
      \<and> evaluate_code example_env (ques ?ce) (code ?ce) = Inl (ExternalError ''evaluator down'')"
    by (simp add: example_defs set_bot_def)
  from message_errors [where env = example_env and data = coding_crash_message
      and event = ?ce and e = "ExternalError ''evaluator down''" and frames = "[]"
      and w = running_world] c
  have "websocket_loop example_env [Message coding_crash_message] running_world
      = websocket_loop example_env []
          (send_json (Coding_error (ExternalError ''evaluator down'')) running_world)"
    by blast
  also have "\<dots> = (Awaiting, send_json (Coding_error (ExternalError ''evaluator down'')) running_world)"
    by (simp add: websocket_loop.simps handler_defs)
  finally have 2: "websocket_loop example_env [Message coding_crash_message] running_world
     = (Awaiting, send_json (Coding_error (ExternalError ''evaluator down'')) running_world)" .
  let ?ae = "\<lparr>ev_type = ''audio'', code = None, ques = None, audio_data = Some ''missing.wav''\<rparr>"
  have a: "validate example_env audio_missing_message = Inr ?ae \<and> ev_type ?ae = ''audio''
      \<and> audio_data ?ae = Some ''missing.wav'' \<and> ''missing.wav'' \<noteq> []
      \<and> snd (transcribe_audio_with_overlap (recognize example_env) (read_file example_env)
                ''missing.wav'') = Inl (RuntimeError OSError)"
    by (simp add: example_defs transcribe_audio_with_overlap_def)
  from message_errors [where env = example_env and data = audio_missing_message
      and event = ?ae and e = "RuntimeError OSError" and frames = "[]" and path = "''missing.wav''"
      and w = example_world] a
  have "websocket_loop example_env [Message audio_missing_message] example_world
      = websocket_loop example_env [] (send_json (Transcription_error (RuntimeError OSError)) example_world)"
    by blast
  also have "\<dots> = (Awaiting, send_json (Transcription_error (RuntimeError OSError)) example_world)"
    by (simp add: websocket_loop.simps handler_defs)
  finally have 3: "websocket_loop example_env [Message audio_missing_message] example_world
     = (Awaiting, send_json (Transcription_error (RuntimeError OSError)) example_world)" .
  let ?ge = "\<lparr>ev_type = ''get_analysis'', code = None, ques = None, audio_data = None\<rparr>"
  have g: "validate example_env (example_message ''get_analysis'') = Inr ?ge
      \<and> (\<forall>m. ExternalError ''analysis failed'' \<noteq> ValidationError m)
      \<and> (ev_type ?ge = ''get_analysis''
           \<and> analyze_results example_env (results (state example_world))
               = Inl (ExternalError ''analysis failed'')
         \<or> ev_type ?ge = ''get_summary_analysis''
           \<and> summary_results example_env (results (state example_world))
               = Inl (ExternalError ''analysis failed''))"
    by (simp add: example_defs)
  from message_errors [where env = example_env and data = "example_message ''get_analysis''"
      and event = ?ge and e = "ExternalError ''analysis failed''" and frames = "[?tq]"
      and w = example_world] g
  have 4: "websocket_loop example_env [Message (example_message ''get_analysis''), ?tq] example_world
     = (Unwound (ExternalError ''analysis failed''), example_world)"
    by blast
  let ?ee = "\<lparr>ev_type = ''end_interview'', code = None, ques = None, audio_data = None\<rparr>"
  have s: "validate stopping_env (example_message ''end_interview'') = Inr ?ee
      \<and> ev_type ?ee = ''end_interview''
      \<and> interview_bot (state running_world) = Some new_InterviewBot
      \<and> interview_task_ends stopping_env
           (set_bot (Some (new_InterviewBot\<lparr>stop_interview := True\<rparr>)) running_world)"
    by (simp add: stopping_env_def example_defs set_bot_def)
  from message_errors [where env = stopping_env and data = "example_message ''end_interview''"
      and event = ?ee and ibot = new_InterviewBot and frames = "[?tq]" and w = running_world] s
  have "websocket_loop stopping_env [Message (example_message ''end_interview''), ?tq] running_world
     = (Unwound AttributeError, set_bot None running_world)"
    by blast
  moreover have "set_bot None running_world = example_world"
    by (simp add: running_world_def example_world_def set_bot_def new_InterviewState_def)
  ultimately have 5: "websocket_loop stopping_env
      [Message (example_message ''end_interview''), ?tq] running_world
     = (Unwound AttributeError, example_world)"
    by simp
  let ?w = "\<lparr>state = new_InterviewState\<lparr>interview_bot := Some new_InterviewBot\<rparr>,
              sent = [Interview_started], tasks = 1, dropped = []\<rparr>"
  have l: "websocket_loop example_env
      [Message (example_message ''start_interview''), Message (example_message ''get_analysis'')]
      \<lparr>state = new_InterviewState, sent = [], tasks = 0, dropped = []\<rparr>
     = (Unwound (ExternalError ''analysis failed''), ?w)"
    by (simp add: websocket_loop.simps example_defs handler_defs)
  from message_errors [where env = example_env
      and frames = "[Message (example_message ''start_interview''),
                     Message (example_message ''get_analysis'')]"
      and e = "ExternalError ''analysis failed''" and w = ?w] l
  have "websocket_endpoint example_env
      [Message (example_message ''start_interview''), Message (example_message ''get_analysis'')]
     = (Unwound (ExternalError ''analysis failed''), finally_block ?w)"
    and "interview_bot (state (finally_block ?w)) = None"
    and "sent (finally_block ?w) = sent ?w"
    and "dropped (finally_block ?w) = dropped ?w @ [new_InterviewBot\<lparr>stop_interview := True\<rparr>]"
    by simp_all
  moreover have "finally_block ?w
      = \<lparr>state = new_InterviewState, sent = [Interview_started], tasks = 1,
         dropped = [new_InterviewBot\<lparr>stop_interview := True\<rparr>]\<rparr>"
    by (simp add: finally_block_def set_bot_def new_InterviewState_def)
  ultimately have 6: "websocket_endpoint example_env
      [Message (example_message ''start_interview''), Message (example_message ''get_analysis'')]
     = (Unwound (ExternalError ''analysis failed''),
        \<lparr>state = new_InterviewState, sent = [Interview_started], tasks = 1,
         dropped = [new_InterviewBot\<lparr>stop_interview := True\<rparr>]\<rparr>)"
    by simp
  from 1 2 3 4 5 6 show ?thesis by blast
qed

text \<open>
  C2 as stated fails for a \<open>get_analysis\<close> message whose analysis raises: no reply is
  sent for it, the loop is left, the message after it is never handled, and the handle is
  stopped and released.
\<close>

theorem unhandled_error_counterexample:
  "websocket_endpoint example_env
     [Message (example_message ''start_interview''), Message (example_message ''get_analysis''),
      Message (example_message ''test_coding_question'')]
   = (Unwound (ExternalError ''analysis failed''),
      \<lparr>state = new_InterviewState, sent = [Interview_started], tasks = 1,
       dropped = [new_InterviewBot\<lparr>stop_interview := True\<rparr>]\<rparr>)"
  by (simp add: websocket_endpoint_def websocket_loop.simps example_defs handler_defs
        finally_block_def)

text \<open>
  C6. A \<open>start_interview\<close> message handled while a handle exists changes nothing: no
  new handle, no task launched, no message sent. Hence of two \<open>start_interview\<close>
  messages handled one after the other the second is a no-op, a handle exists afterwards,
  and at most one task was launched (exactly one, with a fresh handle, when there was none
  before).
\<close>

theorem start_interview_once:
  assumes "ev_type e1 = ''start_interview''" and "ev_type e2 = ''start_interview''"
    and "handle_event env e1 w frames = (r1, w1, frames1)"
    and "handle_event env e2 w1 frames1 = (r2, w2, frames2)"
  shows "(interview_bot (state w) \<noteq> None \<longrightarrow> handle_start_interview w = w \<and> w1 = w)
         \<and> r1 = Returned \<and> r2 = Returned \<and> w2 = w1
         \<and> interview_bot (state w2) \<noteq> None
         \<and> tasks w2 \<le> Suc (tasks w)
         \<and> (interview_bot (state w) = None \<longrightarrow>
              interview_bot (state w2) = Some new_InterviewBot \<and> tasks w2 = Suc (tasks w)
              \<and> sent w2 = sent w @ [Interview_started])"
proof -
  from assms(1,3) have 1: "r1 = Returned" "w1 = handle_start_interview w" "frames1 = frames"
    by (simp_all add: handle_event_def)
  from assms(2,4) have 2: "r2 = Returned" "w2 = handle_start_interview w1"
    by (simp_all add: handle_event_def)
  have some: "interview_bot (state (handle_start_interview v)) \<noteq> None" for v
    by (simp add: handle_start_interview_def send_json_def set_bot_def)
  have noop: "handle_start_interview v = v" if "interview_bot (state v) \<noteq> None" for v
    using that by (auto simp: handle_start_interview_def)
  have "w2 = w1" using 1 2 some noop by simp
  moreover have "tasks (handle_start_interview w) \<le> Suc (tasks w)"
    by (simp add: handle_start_interview_def send_json_def set_bot_def)
  moreover have "interview_bot (state (handle_start_interview w)) = Some new_InterviewBot
       \<and> tasks (handle_start_interview w) = Suc (tasks w)
       \<and> sent (handle_start_interview w) = sent w @ [Interview_started]"
    if "interview_bot (state w) = None"
    using that by (simp add: handle_start_interview_def send_json_def set_bot_def)
  ultimately show ?thesis using 1 2 some noop by simp
qed

theorem start_interview_once_witness:
  "websocket_loop example_env
     [Message (example_message ''start_interview''), Message (example_message ''start_interview'')]
     example_world
   = (Awaiting, send_json Interview_started
                  ((set_bot (Some new_InterviewBot) example_world)\<lparr>tasks := 1\<rparr>))
   \<and> handle_start_interview running_world = running_world"
proof -
  let ?e = "\<lparr>ev_type = ''start_interview'', code = None, ques = None, audio_data = None\<rparr>"
  let ?w1 = "send_json Interview_started ((set_bot (Some new_InterviewBot) example_world)\<lparr>tasks := 1\<rparr>)"
  have h1: "handle_event example_env ?e example_world [] = (Returned, ?w1, [])"
    by (simp add: example_defs handler_defs)
  have h2: "handle_event example_env ?e ?w1 [] = (Returned, ?w1, [])"
    by (simp add: example_defs handler_defs)
  have n: "interview_bot (state example_world) = None" by (simp add: example_defs)
  from start_interview_once [where ?e1.0 = ?e and ?e2.0 = ?e, OF _ _ h1 h2] n
  have once: "tasks ?w1 = Suc (tasks example_world)" by simp
  have r: "interview_bot (state running_world) = Some new_InterviewBot"
    by (simp add: example_defs set_bot_def)
  have h3: "handle_event example_env ?e running_world [] = (Returned, running_world, [])"
    by (simp add: handler_defs r)
  from start_interview_once [where ?e1.0 = ?e and ?e2.0 = ?e, OF _ _ h3 h3] r
  have "handle_start_interview running_world = running_world" by simp
  moreover have "websocket_loop example_env
     [Message (example_message ''start_interview''), Message (example_message ''start_interview'')]
     example_world = (Awaiting, ?w1)"
    by (simp add: websocket_loop.simps example_defs handler_defs)
  ultimately show ?thesis using once by simp
qed

text \<open>
  C7. An \<open>answer\<close> message handled while no handle exists leaves the session, the
  messages sent and the tasks as they were; the handler returns without raising and the
  loop goes on with the next message.
\<close>

theorem answer_without_handle:
  assumes "interview_bot (state w) = None" and "ev_type event = ''answer''"
  shows "handle_answer event w = w
         \<and> handle_event env event w frames = (Returned, w, frames)
         \<and> (validate env data = Inr event \<longrightarrow>
              websocket_loop env (Message data # frames) w = websocket_loop env frames w)"
proof -
  have a: "handle_answer event w = w" using assms(1) by (simp add: handle_answer_def)
  then have h: "handle_event env event w frames = (Returned, w, frames)"
    using assms(2) by (simp add: handle_event_def)
  have "websocket_loop env (Message data # frames) w = websocket_loop env frames w"
    if "validate env data = Inr event"
    by (rule websocket_loop_returned) (rule loop_iteration_event [OF that h])
  with a h show ?thesis by simp
qed

theorem answer_without_handle_witness:
  "interview_bot (state example_world) = None
   \<and> handle_answer \<lparr>ev_type = ''answer'', code = Some ''42'', ques = None, audio_data = None\<rparr>
        example_world = example_world
   \<and> websocket_loop example_env [Message answer_message] example_world = (Awaiting, example_world)"
proof -
  let ?e = "\<lparr>ev_type = ''answer'', code = Some ''42'', ques = None, audio_data = None\<rparr>"
  have n: "interview_bot (state example_world) = None" by (simp add: example_defs)
  have v: "validate example_env answer_message = Inr ?e"
    by (simp add: example_defs answer_message_def)
  from answer_without_handle [where event = ?e and env = example_env and data = answer_message
      and frames = "[]", OF n] v
  have "handle_answer ?e example_world = example_world"
    and "websocket_loop example_env [Message answer_message] example_world
           = websocket_loop example_env [] example_world"
    by simp_all
  moreover have "websocket_loop example_env [] example_world = (Awaiting, example_world)"
    by (simp add: websocket_loop.simps handler_defs)
  ultimately show ?thesis using n by simp
qed

text \<open>
  C8 (amended). For a \<open>coding\<close> message handled while a handle exists, the question and
  the code are given to the external evaluator and its response is sent back as
  \<open>code_evaluation\<close>; the handler sets the code-ready signal if and only if the evaluator
  returns a dict whose \<open>RESULT\<close> entry is truthy, and otherwise leaves the handle as it
  was. When the evaluator raises, a \<open>coding_error\<close> reply is all that happens.
\<close>

theorem coding_sets_signal:
  assumes "interview_bot (state w) = Some ibot"
  shows "interview_bot (state (handle_coding env event w))
           = Some (if (\<exists>d. evaluate_code env (ques event) (code event) = Inr (JDict d)
                          \<and> truthy (dict_get d ''RESULT''))
                   then ibot\<lparr>coding_event := True\<rparr> else ibot)
         \<and> (\<forall>response. evaluate_code env (ques event) (code event) = Inr response \<longrightarrow>
               (\<exists>rest. sent (handle_coding env event w)
                         = sent w @ Code_evaluation response # rest))
         \<and> (\<forall>e. evaluate_code env (ques event) (code event) = Inl e \<longrightarrow>
               handle_coding env event w = send_json (Coding_error e) w)"
proof (cases "evaluate_code env (ques event) (code event)")
  case (Inl e)
  then show ?thesis using assms by (simp add: handle_coding_def send_json_def)
next
  case (Inr response)
  show ?thesis
  proof (cases response)
    case (JDict d)
    then show ?thesis using assms Inr
      by (cases "truthy (dict_get d ''RESULT'')")
         (auto simp: handle_coding_def response_result_def send_json_def set_bot_def Let_def
               dict_get_def)
  qed (use assms Inr in \<open>auto simp: handle_coding_def response_result_def send_json_def
         set_bot_def Let_def\<close>)
qed

theorem coding_sets_signal_witness:
  "interview_bot (state (handle_coding example_env (coding_event_of ''print(1)'') running_world))
     = Some (new_InterviewBot\<lparr>coding_event := True\<rparr>)
   \<and> interview_bot (state (handle_coding example_env (coding_event_of ''pass'') running_world))
     = Some new_InterviewBot"
proof -
  have r: "interview_bot (state running_world) = Some new_InterviewBot"
    by (simp add: example_defs set_bot_def)
  have 1: "\<exists>d. evaluate_code example_env (ques (coding_event_of ''print(1)''))
                  (code (coding_event_of ''print(1)'')) = Inr (JDict d)
              \<and> truthy (dict_get d ''RESULT'')"
    by (simp add: example_defs coding_event_of_def)
  have 2: "\<not> (\<exists>d. evaluate_code example_env (ques (coding_event_of ''pass''))
                  (code (coding_event_of ''pass'')) = Inr (JDict d)
              \<and> truthy (dict_get d ''RESULT''))"
    by (simp add: example_defs coding_event_of_def)
  from coding_sets_signal [OF r, of example_env "coding_event_of ''print(1)''"] 1
  have "interview_bot (state (handle_coding example_env (coding_event_of ''print(1)'') running_world))
     = Some (new_InterviewBot\<lparr>coding_event := True\<rparr>)" by simp
  moreover from coding_sets_signal [OF r, of example_env "coding_event_of ''pass''"] 2
  have "interview_bot (state (handle_coding example_env (coding_event_of ''pass'') running_world))
     = Some new_InterviewBot" by simp
  ultimately show ?thesis by simp
qed

text \<open>
  C8 as stated fails for an outcome that has the verdict field with a falsy value: the
  response \<open>{"RESULT": false}\<close> has the field, and the signal stays unset.
\<close>

theorem verdict_field_counterexample:
  "evaluate_code example_env (ques (coding_event_of ''pass'')) (code (coding_event_of ''pass''))
     = Inr (JDict [(''RESULT'', JBool False)])
   \<and> spec_has_verdict_field (JDict [(''RESULT'', JBool False)])
   \<and> interview_bot (state running_world) = Some new_InterviewBot
   \<and> interview_bot (state (handle_coding example_env (coding_event_of ''pass'') running_world))
       = Some new_InterviewBot
   \<and> \<not> coding_event new_InterviewBot"
  by (simp add: example_defs handler_defs coding_event_of_def spec_has_verdict_field_def)

text \<open>
  C10. When the pipeline returns the empty transcript for an \<open>audio\<close> message, a
  \<open>transcription_complete\<close> reply is sent and the session, with its pending answer and
  its answer signal, is unchanged. The handler changes the session only when the
  transcript is non-empty and a handle exists, and then by storing the transcript as the
  pending answer and setting the answer signal.
\<close>

theorem audio_transcript_submission:
  "(audio_data event = Some path \<and> path \<noteq> []
      \<and> snd (transcribe_audio_with_overlap (recognize env) (read_file env) path) = Inr [] \<longrightarrow>
        handle_audio_transcription env event w = send_json (Transcription_complete []) w
        \<and> state (handle_audio_transcription env event w) = state w
        \<and> sent (handle_audio_transcription env event w) = sent w @ [Transcription_complete []])
   \<and> (state (handle_audio_transcription env event w) \<noteq> state w \<longrightarrow>
        (\<exists>p t ibot. audio_data event = Some p \<and> p \<noteq> []
           \<and> snd (transcribe_audio_with_overlap (recognize env) (read_file env) p) = Inr t
           \<and> t \<noteq> [] \<and> interview_bot (state w) = Some ibot
           \<and> state (handle_audio_transcription env event w)
               = (state w)\<lparr>interview_bot :=
                    Some (ibot\<lparr>current_answer := Some t, answer_event := True\<rparr>)\<rparr>))"
proof (intro conjI impI)
  assume a: "audio_data event = Some path \<and> path \<noteq> []
      \<and> snd (transcribe_audio_with_overlap (recognize env) (read_file env) path) = Inr []"
  then have "handle_audio_transcription env event w = send_json (Transcription_complete []) w"
    by (simp add: handle_audio_transcription_def send_json_def Let_def split: option.splits)
  then show "handle_audio_transcription env event w = send_json (Transcription_complete []) w"
    and "state (handle_audio_transcription env event w) = state w"
    and "sent (handle_audio_transcription env event w) = sent w @ [Transcription_complete []]"
    by (simp_all add: send_json_def)
next
  assume "state (handle_audio_transcription env event w) \<noteq> state w"
  then show "\<exists>p t ibot. audio_data event = Some p \<and> p \<noteq> []
           \<and> snd (transcribe_audio_with_overlap (recognize env) (read_file env) p) = Inr t
           \<and> t \<noteq> [] \<and> interview_bot (state w) = Some ibot
           \<and> state (handle_audio_transcription env event w)
               = (state w)\<lparr>interview_bot :=
                    Some (ibot\<lparr>current_answer := Some t, answer_event := True\<rparr>)\<rparr>"
    by (auto simp: handle_audio_transcription_def send_json_def set_bot_def Let_def
             split: option.splits sum.splits if_splits)
qed

theorem audio_transcript_submission_witness:
  "handle_audio_transcription example_env (audio_event ''empty.wav'') running_world
     = send_json (Transcription_complete []) running_world
   \<and> state (handle_audio_transcription example_env (audio_event ''empty.wav'') running_world)
     = state running_world
   \<and> state (handle_audio_transcription example_env (audio_event ''two.wav'') running_world)
     = (state running_world)\<lparr>interview_bot :=
          Some (new_InterviewBot\<lparr>current_answer := Some ''aa'', answer_event := True\<rparr>)\<rparr>"
proof -
  have e: "audio_data (audio_event ''empty.wav'') = Some ''empty.wav'' \<and> ''empty.wav'' \<noteq> []
      \<and> snd (transcribe_audio_with_overlap (recognize example_env) (read_file example_env)
                ''empty.wav'') = Inr []"
    by (simp add: audio_event_def example_env_def ex_empty)
  from audio_transcript_submission [where env = example_env and event = "audio_event ''empty.wav''"
      and path = "''empty.wav''" and w = running_world] e
  have 1: "handle_audio_transcription example_env (audio_event ''empty.wav'') running_world
             = send_json (Transcription_complete []) running_world"
    and 2: "state (handle_audio_transcription example_env (audio_event ''empty.wav'') running_world)
             = state running_world"
    by blast+
  have two: "state (handle_audio_transcription example_env (audio_event ''two.wav'') running_world)
     = (state running_world)\<lparr>interview_bot :=
          Some (new_InterviewBot\<lparr>current_answer := Some ''aa'', answer_event := True\<rparr>)\<rparr>"
    by (simp add: handle_audio_transcription_def audio_event_def example_env_def ex_two
          send_json_def set_bot_def running_world_def example_world_def)
  then have "state (handle_audio_transcription example_env (audio_event ''two.wav'') running_world)
      \<noteq> state running_world"
    by (simp add: running_world_def example_world_def set_bot_def new_InterviewState_def
          new_InterviewBot_def)
  with audio_transcript_submission [where env = example_env and event = "audio_event ''two.wav''"
      and w = running_world]
  obtain p t ibot where "audio_data (audio_event ''two.wav'') = Some p" "t \<noteq> []"
    "interview_bot (state running_world) = Some ibot"
    by blast
  with 1 2 two show ?thesis by simp
qed

end
